theory Spec2Isabelle
  imports Main "HOL-Library.AList"
begin

section \<open>The Apigee runtime SPI adapter (lib/apigeeruntime.js)\<close>

text \<open>
  The module forwards each OAuth operation as one HTTP request to a backend and hands the
  classified response to the caller's callback. The embedding follows the source function by
  function. JavaScript strings are \<^typ>\<open>string\<close>; a property that may be \<^verbatim>\<open>undefined\<close> is an
  \<^typ>\<open>'a option\<close> with \<^term>\<open>None\<close> for \<^verbatim>\<open>undefined\<close>; a thrown exception is the left
  summand of a sum.
\<close>

subsection \<open>JavaScript values used by the module\<close>

text \<open>\<^verbatim>\<open>if (x)\<close> on a string-or-undefined property: the empty string and
  \<^verbatim>\<open>undefined\<close> are falsy.\<close>

definition truthy :: "string option \<Rightarrow> bool" where
  "truthy v = (case v of None \<Rightarrow> False | Some s \<Rightarrow> s \<noteq> [])"

text \<open>String concatenation \<^verbatim>\<open>'...' + x\<close> converts \<^verbatim>\<open>undefined\<close> to the text
  \<^verbatim>\<open>undefined\<close>.\<close>

definition str_of :: "string option \<Rightarrow> string" where
  "str_of v = (case v of None \<Rightarrow> ''undefined'' | Some s \<Rightarrow> s)"

text \<open>A JavaScript \<^verbatim>\<open>Error\<close> object with the two properties the module sets.\<close>

record error =
  message :: string
  statusCode :: "int option"

definition Error :: "string \<Rightarrow> error" where
  "Error msg = \<lparr>message = msg, statusCode = None\<rparr>"

subsection \<open>The constructor\<close>

record spi_options =
  opt_uri :: "string option"
  opt_key :: "string option"

record spi =
  uri :: string
  key :: string

text \<open>\<^verbatim>\<open>var spi = function(options)\<close>: throws when \<^verbatim>\<open>options.uri\<close> or
  \<^verbatim>\<open>options.key\<close> is falsy, otherwise stores both.\<close>

definition spi :: "spi_options \<Rightarrow> error + spi" where
  "spi options =
     (if \<not> truthy (opt_uri options) then Inl (Error ''uri parameter must be specified'')
      else if \<not> truthy (opt_key options) then Inl (Error ''key parameter must be specified'')
      else Inr \<lparr>uri = the (opt_uri options), key = the (opt_key options)\<rparr>)"

subsection \<open>Library functions the module calls\<close>

text \<open>\<^verbatim>\<open>querystring.escape\<close> is \<^verbatim>\<open>encodeURIComponent\<close>: letters, digits and
  \<^verbatim>\<open>- _ . ! ~ * ' ( )\<close> stay, every other byte of the UTF-8 text becomes \<^verbatim>\<open>%XX\<close> in
  upper-case hexadecimal.\<close>

definition unreserved :: "char \<Rightarrow> bool" where
  "unreserved c =
     (c \<in> set ''ABCDEFGHIJKLMNOPQRSTUVWXYZabcdefghijklmnopqrstuvwxyz0123456789-_.!~*()''
      \<or> c = CHR 0x27)"

definition hexdigit :: "nat \<Rightarrow> char" where
  "hexdigit n = ''0123456789ABCDEF'' ! (n mod 16)"

definition escape_char :: "char \<Rightarrow> string" where
  "escape_char c =
     (if unreserved c then [c]
      else [CHR ''%'', hexdigit (of_char c div 16), hexdigit (of_char c mod 16)])"

definition escape :: "string \<Rightarrow> string" where
  "escape s = concat (map escape_char s)"

text \<open>\<^verbatim>\<open>stringifyPrimitive\<close> of the querystring module: a string is itself, \<^verbatim>\<open>undefined\<close>
  is the empty string.\<close>

definition stringifyPrimitive :: "string option \<Rightarrow> string" where
  "stringifyPrimitive v = (case v of None \<Rightarrow> [] | Some s \<Rightarrow> s)"

text \<open>\<^verbatim>\<open>Array.prototype.join\<close>.\<close>

fun join :: "string \<Rightarrow> string list \<Rightarrow> string" where
  "join sep [] = []"
| "join sep [x] = x"
| "join sep (x # y # ys) = x @ sep @ join sep (y # ys)"

text \<open>\<^verbatim>\<open>querystring.stringify(obj)\<close>: the object's own properties in insertion order, each
  as \<^verbatim>\<open>escape(key)=escape(value)\<close>, joined by \<^verbatim>\<open>&\<close>. An object literal is the list of its
  properties; \<^verbatim>\<open>obj.k = v\<close> is \<^const>\<open>AList.update\<close>.\<close>

type_synonym qs_object = "(string \<times> string option) list"

definition stringify_pair :: "string \<times> string option \<Rightarrow> string" where
  "stringify_pair p = escape (fst p) @ ''='' @ escape (stringifyPrimitive (snd p))"

definition stringify :: "qs_object \<Rightarrow> string" where
  "stringify obj = join ''&'' (map stringify_pair obj)"

text \<open>\<^verbatim>\<open>new Buffer(s).toString('base64')\<close>: the standard alphabet with \<^verbatim>\<open>=\<close> padding,
  over the bytes of the text.\<close>

definition b64 :: "nat \<Rightarrow> char" where
  "b64 n = ''ABCDEFGHIJKLMNOPQRSTUVWXYZabcdefghijklmnopqrstuvwxyz0123456789+/'' ! (n mod 64)"

fun base64_bytes :: "nat list \<Rightarrow> string" where
  "base64_bytes [] = []"
| "base64_bytes [a] = [b64 (a div 4), b64 ((a mod 4) * 16), CHR ''='', CHR ''='']"
| "base64_bytes [a, b] =
     [b64 (a div 4), b64 ((a mod 4) * 16 + b div 16), b64 ((b mod 16) * 4), CHR ''='']"
| "base64_bytes (a # b # c # bs) =
     [b64 (a div 4), b64 ((a mod 4) * 16 + b div 16), b64 ((b mod 16) * 4 + c div 64),
      b64 (c mod 64)] @ base64_bytes bs"

definition base64 :: "string \<Rightarrow> string" where
  "base64 s = base64_bytes (map of_char s)"

text \<open>\<^verbatim>\<open>url.parse(u).protocol\<close>: the text is trimmed, then the longest prefix matching
  \<^verbatim>\<open>/^([a-z0-9.+-]+:)/i\<close> is taken in lower case; \<^verbatim>\<open>null\<close> (here \<^term>\<open>None\<close>) when
  there is no such prefix. White space is the ASCII white space (tab, line feed, vertical tab,
  form feed, carriage return, space); the Unicode spaces beyond ASCII are not modelled.\<close>

definition is_space :: "char \<Rightarrow> bool" where
  "is_space c = (of_char c \<in> {9, 10, 11, 12, 13, 32 :: nat})"

definition scheme_char :: "char \<Rightarrow> bool" where
  "scheme_char c =
     (c \<in> set ''ABCDEFGHIJKLMNOPQRSTUVWXYZabcdefghijklmnopqrstuvwxyz0123456789.+-'')"

definition to_lower :: "char \<Rightarrow> char" where
  "to_lower c =
     (if (65::nat) \<le> of_char c \<and> of_char c \<le> (90::nat) then char_of (of_char c + (32::nat))
      else c)"

definition url_protocol :: "string \<Rightarrow> string option" where
  "url_protocol u =
     (let rest = dropWhile is_space u;
          name = takeWhile scheme_char rest
      in case dropWhile scheme_char rest of
           [] \<Rightarrow> None
         | c # _ \<Rightarrow> if name \<noteq> [] \<and> c = CHR '':'' then Some (map to_lower name @ '':'')
                    else None)"

subsection \<open>Requests, responses and the callback\<close>

text \<open>The parameter object of an operation. Every property is a string or \<^verbatim>\<open>undefined\<close>,
  but \<^verbatim>\<open>tokenLifetime\<close>, a number of milliseconds. \<^verbatim>\<open>grantType\<close> is the property the
  token operations write into the caller's object.\<close>

record options =
  clientId :: "string option"
  clientSecret :: "string option"
  scope :: "string option"
  tokenLifetime :: "int option"
  username :: "string option"
  password :: "string option"
  code :: "string option"
  redirectUri :: "string option"
  state :: "string option"
  refreshToken :: "string option"
  accessToken :: "string option"
  grantType :: "string option"

datatype header_value = HStr string | HNum int

text \<open>The object handed to \<^verbatim>\<open>http.request\<close> or \<^verbatim>\<open>https.request\<close>: the parsed URL (kept as
  its text and its protocol), the method, the headers in insertion order, and the body given to
  \<^verbatim>\<open>req.end\<close>, if any.\<close>

record request =
  href :: string
  protocol :: "string option"
  http_method :: string
  headers :: "(string \<times> header_value) list"
  body :: "string option"

text \<open>The response: its status, its headers (Node keys them in lower case), and the events
  the stream emits. A \<^verbatim>\<open>readable\<close> event carries the chunks that \<^verbatim>\<open>resp.read()\<close> returns
  before it returns \<^verbatim>\<open>null\<close>, each as the text that \<^verbatim>\<open>data += d\<close> appends.\<close>

record response =
  resp_statusCode :: int
  resp_headers :: "string \<rightharpoonup> string"

datatype resp_event = Readable "string list" | End | ErrorEvent error

text \<open>What the network does with a request that was sent: the request emits \<^verbatim>\<open>error\<close>, or
  a response arrives and emits its events.\<close>

datatype net = RequestError error | Response response "resp_event list"

text \<open>The caller's callback \<^verbatim>\<open>cb(err, result)\<close>. An invocation is recorded by its two
  arguments; the callback itself is the predicate telling on which arguments it throws. A
  run is the list of invocations made, and whether an exception escaped.\<close>

type_synonym 'r cbargs = "error option \<times> 'r option"

type_synonym 'r callback = "'r cbargs \<Rightarrow> bool"

type_synonym 'r run = "'r cbargs list \<times> bool"

definition invoke :: "'r callback \<Rightarrow> 'r cbargs \<Rightarrow> 'r run" where
  "invoke cb args = ([args], cb args)"

text \<open>Sequencing: what follows runs only if nothing was thrown.\<close>

definition and_then :: "'r run \<Rightarrow> 'r run \<Rightarrow> 'r run" where
  "and_then a b = (if snd a then a else (fst a @ fst b, snd b))"

text \<open>Everything observable of one call of an operation.\<close>

record 'r effect =
  logged :: "string list"
  sent :: "request list"
  calls :: "'r cbargs list"
  uncaught :: bool

subsection \<open>Reading the response\<close>

text \<open>\<^verbatim>\<open>readResponse(resp, data)\<close>: the do-while loop appends every chunk until
  \<^verbatim>\<open>resp.read()\<close> returns \<^verbatim>\<open>null\<close>. The first argument is what the stream still holds.\<close>

fun readResponse :: "string list \<Rightarrow> string \<Rightarrow> string" where
  "readResponse [] data = data"
| "readResponse (d # pending) data = readResponse pending (data @ d)"

text \<open>The \<^verbatim>\<open>end\<close> handler of \<^verbatim>\<open>getRequestComplete\<close>.\<close>

definition getRequestComplete_end :: "response \<Rightarrow> string callback \<Rightarrow> string \<Rightarrow> string run" where
  "getRequestComplete_end resp cb respData =
     (if resp_statusCode resp \<noteq> 302
      then invoke cb (Some \<lparr>message = respData, statusCode = Some (resp_statusCode resp)\<rparr>, None)
      else invoke cb (None, resp_headers resp ''location''))"

text \<open>\<^verbatim>\<open>getRequestComplete(resp, options, cb)\<close> registers three handlers; the function below
  runs them over the events of the response, threading \<^verbatim>\<open>respData\<close>.\<close>

fun getRequestComplete_events ::
  "response \<Rightarrow> options \<Rightarrow> string callback \<Rightarrow> string \<Rightarrow> resp_event list \<Rightarrow> string run" where
  "getRequestComplete_events resp options cb respData [] = ([], False)"
| "getRequestComplete_events resp options cb respData (ErrorEvent err # evs) =
     and_then (invoke cb (Some err, None)) (getRequestComplete_events resp options cb respData evs)"
| "getRequestComplete_events resp options cb respData (Readable chunks # evs) =
     getRequestComplete_events resp options cb (readResponse chunks respData) evs"
| "getRequestComplete_events resp options cb respData (End # evs) =
     and_then (getRequestComplete_end resp cb respData)
       (getRequestComplete_events resp options cb respData evs)"

definition getRequestComplete ::
  "response \<Rightarrow> options \<Rightarrow> string callback \<Rightarrow> resp_event list \<Rightarrow> string run" where
  "getRequestComplete resp options cb evs = getRequestComplete_events resp options cb [] evs"

subsection \<open>GET requests\<close>

text \<open>\<^verbatim>\<open>'...' + r.protocol\<close>, where the protocol may be \<^verbatim>\<open>null\<close>.\<close>

definition null_text :: "string option \<Rightarrow> string" where
  "null_text v = (case v of None \<Rightarrow> ''null'' | Some s \<Rightarrow> s)"

text \<open>\<^verbatim>\<open>makeGetRequest(self, uriPath, qs, options, cb)\<close>. With a protocol other than
  http and https the callback gets the error at once and no request is made. Otherwise the
  request is sent, and the callback is called from the handlers: by the request's
  \<^verbatim>\<open>error\<close> handler, or by those of \<^verbatim>\<open>getRequestComplete\<close> on the response.\<close>

definition makeGetRequest ::
  "spi \<Rightarrow> string \<Rightarrow> string \<Rightarrow> options \<Rightarrow> string callback \<Rightarrow> net \<Rightarrow> string effect" where
  "makeGetRequest self uriPath qs options cb network =
     (let finalUri = uri self @ uriPath @ ''?'' @ qs;
          log = [''GET '' @ finalUri];
          r = \<lparr>href = finalUri, protocol = url_protocol finalUri, http_method = ''GET'',
               headers = AList.update ''x-DNA-Api-Key'' (HStr (key self)) [], body = None\<rparr>
      in if protocol r = Some ''http:'' \<or> protocol r = Some ''https:''
         then let run = (case network of
                           RequestError err \<Rightarrow> invoke cb (Some err, None)
                         | Response resp evs \<Rightarrow> getRequestComplete resp options cb evs)
              in \<lparr>logged = log, sent = [r], calls = fst run, uncaught = snd run\<rparr>
         else let run = invoke cb (Some (Error (''Unsupported protocol '' @ null_text (protocol r))), None)
              in \<lparr>logged = log, sent = [], calls = fst run, uncaught = snd run\<rparr>)"

text \<open>\<^verbatim>\<open>spi.prototype.generateAuthorizationCode\<close> and
  \<^verbatim>\<open>spi.prototype.createTokenImplicitGrant\<close>. The wrapper
  \<^verbatim>\<open>function(err, result) { cb(err, result); }\<close> is the callback itself.\<close>

text \<open>The statement \<^verbatim>\<open>if (options.x) { qs.k = options.x; }\<close>.\<close>

definition set_if :: "string option \<Rightarrow> string \<Rightarrow> qs_object \<Rightarrow> qs_object" where
  "set_if v k qs = (if truthy v then AList.update k v qs else qs)"

definition generateAuthorizationCode ::
  "spi \<Rightarrow> options \<Rightarrow> string callback \<Rightarrow> net \<Rightarrow> string effect" where
  "generateAuthorizationCode self options cb network =
     (let qs = [(''response_type'', Some ''code''), (''client_id'', clientId options)];
          qs = set_if (redirectUri options) ''redirect_uri'' qs;
          qs = set_if (scope options) ''scope'' qs;
          qs = set_if (state options) ''state'' qs
      in makeGetRequest self ''/tokentypes/authcode/authcodes'' (stringify qs) options cb network)"

definition createTokenImplicitGrant ::
  "spi \<Rightarrow> options \<Rightarrow> string callback \<Rightarrow> net \<Rightarrow> string effect" where
  "createTokenImplicitGrant self options cb network =
     (let qs = [(''response_type'', Some ''token''), (''client_id'', clientId options)];
          qs = set_if (redirectUri options) ''redirect_uri'' qs;
          qs = set_if (scope options) ''scope'' qs;
          qs = set_if (state options) ''state'' qs
      in makeGetRequest self ''/tokentypes/implicit/tokens'' (stringify qs) options cb network)"

subsection \<open>JSON.parse\<close>

text \<open>The values \<^verbatim>\<open>JSON.parse\<close> returns, and \<^verbatim>\<open>undefined\<close> for a property that an object does
  not have. A number is kept as the decimal its text denotes, \<open>m \<times> 10\<^sup>e\<close>. An object is the
  list of its properties in insertion order.\<close>

datatype jsval =
    JUndefined
  | JNull
  | JBool bool
  | JNum int int
  | JStr string
  | JArr "jsval list"
  | JObj "(string \<times> jsval) list"

datatype json_token =
    LBrace | RBrace | LBracket | RBracket | Colon | Comma
  | TStr string | TNum int int | TTrue | TFalse | TNull

definition is_digit :: "char \<Rightarrow> bool" where
  "is_digit c = ((48::nat) \<le> of_char c \<and> of_char c \<le> (57::nat))"

text \<open>The value of a character as a digit of some radix up to 16.\<close>

definition digit_of :: "char \<Rightarrow> nat option" where
  "digit_of c =
     (let n = of_char c :: nat
      in if 48 \<le> n \<and> n \<le> 57 then Some (n - 48)
         else if 97 \<le> n \<and> n \<le> 102 then Some (n - 87)
         else if 65 \<le> n \<and> n \<le> 70 then Some (n - 55)
         else None)"

definition radix_digit :: "nat \<Rightarrow> char \<Rightarrow> bool" where
  "radix_digit R c = (case digit_of c of None \<Rightarrow> False | Some d \<Rightarrow> d < R)"

definition digits_value :: "nat \<Rightarrow> string \<Rightarrow> nat" where
  "digits_value R ds = foldl (\<lambda>n c. n * R + (case digit_of c of None \<Rightarrow> 0 | Some d \<Rightarrow> d)) 0 ds"

text \<open>A \<^verbatim>\<open>\uXXXX\<close> escape denotes one UTF-16 code unit; it is stored as the one to three
  bytes that UTF-8 gives a code point of that number.\<close>

definition code_unit :: "nat \<Rightarrow> string" where
  "code_unit n =
     (if n < 128 then [char_of n]
      else if n < 2048 then [char_of (192 + n div 64), char_of (128 + n mod 64)]
      else [char_of (224 + n div 4096), char_of (128 + (n div 64) mod 64),
            char_of (128 + n mod 64)])"

definition simple_escape :: "char \<Rightarrow> char option" where
  "simple_escape e =
     (if e = CHR 0x22 \<or> e = CHR 0x5C \<or> e = CHR ''/'' then Some e
      else if e = CHR ''b'' then Some (CHR 0x08)
      else if e = CHR ''f'' then Some (CHR 0x0C)
      else if e = CHR ''n'' then Some (CHR 0x0A)
      else if e = CHR ''r'' then Some (CHR 0x0D)
      else if e = CHR ''t'' then Some (CHR 0x09)
      else None)"

text \<open>The characters of a string after its opening quote: the decoded text and what follows
  the closing quote.\<close>

fun lex_string :: "string \<Rightarrow> string \<Rightarrow> (string \<times> string) option" where
  "lex_string acc [] = None"
| "lex_string acc (c # cs) =
     (if c = CHR 0x22 then Some (acc, cs)
      else if c = CHR 0x5C then
        (case cs of
           [] \<Rightarrow> None
         | e # cs1 \<Rightarrow>
             if e = CHR ''u'' then
               (case cs1 of
                  h1 # h2 # h3 # h4 # cs2 \<Rightarrow>
                    if list_all (radix_digit 16) [h1, h2, h3, h4]
                    then lex_string (acc @ code_unit (digits_value 16 [h1, h2, h3, h4])) cs2
                    else None
                | _ \<Rightarrow> None)
             else (case simple_escape e of
                     None \<Rightarrow> None
                   | Some x \<Rightarrow> lex_string (acc @ [x]) cs1))
      else if (of_char c :: nat) < 32 then None
      else lex_string (acc @ [c]) cs)"

text \<open>A number: \<^verbatim>\<open>-? (0 | [1-9][0-9]*) (. [0-9]+)? ([eE] [+-]? [0-9]+)?\<close>. A second digit
  after a leading zero, a point without digits and an exponent without digits are errors
  here, as no JSON text continues that way.\<close>

definition lex_number :: "string \<Rightarrow> (json_token \<times> string) option" where
  "lex_number cs =
     (let neg = (case cs of c # _ \<Rightarrow> c = CHR ''-'' | [] \<Rightarrow> False);
          cs1 = (if neg then drop 1 cs else cs);
          ip = takeWhile is_digit cs1;
          cs2 = dropWhile is_digit cs1;
          has_frac = (case cs2 of c # _ \<Rightarrow> c = CHR ''.'' | [] \<Rightarrow> False);
          fp = (if has_frac then takeWhile is_digit (drop 1 cs2) else []);
          cs3 = (if has_frac then dropWhile is_digit (drop 1 cs2) else cs2);
          has_exp = (case cs3 of c # _ \<Rightarrow> c = CHR ''e'' \<or> c = CHR ''E'' | [] \<Rightarrow> False);
          cs4 = (if has_exp then drop 1 cs3 else cs3);
          eneg = (has_exp \<and> (case cs4 of c # _ \<Rightarrow> c = CHR ''-'' | [] \<Rightarrow> False));
          esign = (has_exp \<and> (case cs4 of c # _ \<Rightarrow> c = CHR ''-'' \<or> c = CHR ''+'' | [] \<Rightarrow> False));
          cs5 = (if esign then drop 1 cs4 else cs4);
          ep = (if has_exp then takeWhile is_digit cs5 else []);
          cs6 = (if has_exp then dropWhile is_digit cs5 else cs3);
          m = int (digits_value 10 (ip @ fp));
          e = int (digits_value 10 ep)
      in if ip = [] \<or> (take 1 ip = ''0'' \<and> 1 < length ip) \<or> (has_frac \<and> fp = [])
            \<or> (has_exp \<and> ep = [])
         then None
         else Some (TNum (if neg then - m else m) ((if eneg then - e else e) - int (length fp)),
                    cs6))"

fun strip_prefix :: "string \<Rightarrow> string \<Rightarrow> string option" where
  "strip_prefix [] s = Some s"
| "strip_prefix (p # ps) [] = None"
| "strip_prefix (p # ps) (c # cs) = (if p = c then strip_prefix ps cs else None)"

definition json_space :: "char \<Rightarrow> bool" where
  "json_space c = (of_char c \<in> {9, 10, 13, 32 :: nat})"

definition punctuation :: "char \<Rightarrow> json_token option" where
  "punctuation c =
     (if c = CHR ''{'' then Some LBrace else if c = CHR ''}'' then Some RBrace
      else if c = CHR ''['' then Some LBracket else if c = CHR '']'' then Some RBracket
      else if c = CHR '':'' then Some Colon else if c = CHR '','' then Some Comma
      else None)"

text \<open>One token at the head of a text that does not start with white space.\<close>

definition next_token :: "string \<Rightarrow> (json_token \<times> string) option" where
  "next_token s =
     (case s of
        [] \<Rightarrow> None
      | c # cs \<Rightarrow>
          (case punctuation c of
             Some t \<Rightarrow> Some (t, cs)
           | None \<Rightarrow>
               if c = CHR 0x22 then map_option (\<lambda>(x, rest). (TStr x, rest)) (lex_string [] cs)
               else if c = CHR ''-'' \<or> is_digit c then lex_number s
               else if c = CHR ''t'' then map_option (Pair TTrue) (strip_prefix ''rue'' cs)
               else if c = CHR ''f'' then map_option (Pair TFalse) (strip_prefix ''alse'' cs)
               else if c = CHR ''n'' then map_option (Pair TNull) (strip_prefix ''ull'' cs)
               else None))"

lemma lex_string_length: "lex_string acc cs = Some (x, rest) \<Longrightarrow> length rest < length cs"
  apply (induction acc cs rule: lex_string.induct)
   apply (force split: if_splits list.splits option.splits)+
  done

lemma strip_prefix_length: "strip_prefix p s = Some rest \<Longrightarrow> length rest \<le> length s"
  by (induction p s rule: strip_prefix.induct) (auto split: if_splits)

lemma length_dropWhile_less: "takeWhile P xs \<noteq> [] \<Longrightarrow> length (dropWhile P xs) < length xs"
  by (cases xs) (auto simp: le_imp_less_Suc length_dropWhile_le split: if_splits)

lemma if_None_Some: "(if C then None else Some a) = Some b \<Longrightarrow> \<not> C \<and> a = b"
  by (simp split: if_splits)

lemma lex_number_length:
  assumes "lex_number cs = Some (t, rest)"
  shows "length rest < length cs"
proof -
  define cs1 where
    "cs1 = (if (case cs of c # _ \<Rightarrow> c = CHR ''-'' | [] \<Rightarrow> False) then drop 1 cs else cs)"
  define cs2 where "cs2 = dropWhile is_digit cs1"
  define cs3 where
    "cs3 = (if (case cs2 of c # _ \<Rightarrow> c = CHR ''.'' | [] \<Rightarrow> False)
            then dropWhile is_digit (drop 1 cs2) else cs2)"
  define has_exp where
    "has_exp = (case cs3 of c # _ \<Rightarrow> c = CHR ''e'' \<or> c = CHR ''E'' | [] \<Rightarrow> False)"
  define cs4 where "cs4 = (if has_exp then drop 1 cs3 else cs3)"
  define cs5 where
    "cs5 = (if (has_exp \<and> (case cs4 of c # _ \<Rightarrow> c = CHR ''-'' \<or> c = CHR ''+'' | [] \<Rightarrow> False))
            then drop 1 cs4 else cs4)"
  define cs6 where "cs6 = (if has_exp then dropWhile is_digit cs5 else cs3)"
  have "\<exists>C T. lex_number cs = (if takeWhile is_digit cs1 = [] \<or> C then None else Some (T, cs6))"
    unfolding lex_number_def Let_def cs1_def cs2_def cs3_def has_exp_def cs4_def cs5_def cs6_def
    by blast
  then obtain C T where
    "lex_number cs = (if takeWhile is_digit cs1 = [] \<or> C then None else Some (T, cs6))"
    by blast
  with assms have ip: "takeWhile is_digit cs1 \<noteq> []" and rest: "rest = cs6"
    by (auto dest!: if_None_Some)
  have 1: "length cs1 \<le> length cs" by (simp add: cs1_def)
  have 2: "length cs2 < length cs1" unfolding cs2_def using ip by (rule length_dropWhile_less)
  have 3: "length cs3 \<le> length cs2" unfolding cs3_def
    by (auto intro: order_trans [OF length_dropWhile_le])
  have 4: "length cs4 \<le> length cs3" by (simp add: cs4_def)
  have 5: "length cs5 \<le> length cs4" by (simp add: cs5_def)
  have 6: "length cs6 \<le> length cs3" unfolding cs6_def using 4 5
    by (auto intro: order_trans [OF length_dropWhile_le])
  from 1 2 3 6 rest show ?thesis by simp
qed

lemma next_token_length: "next_token s = Some (t, rest) \<Longrightarrow> length rest < length s"
  unfolding next_token_def
  by (auto split: list.splits option.splits if_splits
      dest: lex_string_length lex_number_length strip_prefix_length)

text \<open>The tokens of a text, or \<^term>\<open>None\<close> where no token starts.\<close>

function lexer :: "string \<Rightarrow> json_token list option" where
  "lexer [] = Some []"
| "lexer (c # cs) =
     (if json_space c then lexer cs
      else (case next_token (c # cs) of
              None \<Rightarrow> None
            | Some (t, rest) \<Rightarrow> map_option (Cons t) (lexer rest)))"
  by pat_completeness auto
termination
proof (relation "measure length")
  fix c cs x t rest
  assume "next_token (c # cs) = Some x" and "(t, rest) = x"
  then have "length rest < length (c # cs)"
    by (auto dest: next_token_length)
  then show "(rest, c # cs) \<in> measure length" by simp
qed simp_all

text \<open>The grammar over the tokens, as an automaton with a stack of the arrays and objects
  that are open. No trailing comma; any value may stand at the top (ES5). A repeated key
  keeps its first position and takes the last value.\<close>

datatype frame = ArrF "jsval list" | ObjF "(string \<times> jsval) list" string

datatype pstate =
    PValue "frame list"
  | PArrStart "frame list"
  | PArrNext "jsval list" "frame list"
  | PObjStart "frame list"
  | PObjKey "(string \<times> jsval) list" "frame list"
  | PObjColon "(string \<times> jsval) list" string "frame list"
  | PObjNext "(string \<times> jsval) list" "frame list"
  | PDone jsval

text \<open>A value is complete: it is the result, or goes into the innermost open array or
  object.\<close>

definition complete :: "jsval \<Rightarrow> frame list \<Rightarrow> pstate" where
  "complete v st =
     (case st of
        [] \<Rightarrow> PDone v
      | ArrF items # st' \<Rightarrow> PArrNext (items @ [v]) st'
      | ObjF ms k # st' \<Rightarrow> PObjNext (AList.update k v ms) st')"

definition begin_value :: "json_token \<Rightarrow> frame list \<Rightarrow> pstate option" where
  "begin_value t st =
     (case t of
        LBracket \<Rightarrow> Some (PArrStart st)
      | LBrace \<Rightarrow> Some (PObjStart st)
      | TStr x \<Rightarrow> Some (complete (JStr x) st)
      | TNum m e \<Rightarrow> Some (complete (JNum m e) st)
      | TTrue \<Rightarrow> Some (complete (JBool True) st)
      | TFalse \<Rightarrow> Some (complete (JBool False) st)
      | TNull \<Rightarrow> Some (complete JNull st)
      | _ \<Rightarrow> None)"

fun pstep :: "pstate \<Rightarrow> json_token \<Rightarrow> pstate option" where
  "pstep (PValue st) t = begin_value t st"
| "pstep (PArrStart st) t =
     (if t = RBracket then Some (complete (JArr []) st) else begin_value t (ArrF [] # st))"
| "pstep (PArrNext items st) t =
     (if t = Comma then Some (PValue (ArrF items # st))
      else if t = RBracket then Some (complete (JArr items) st)
      else None)"
| "pstep (PObjStart st) t =
     (case t of
        RBrace \<Rightarrow> Some (complete (JObj []) st)
      | TStr k \<Rightarrow> Some (PObjColon [] k st)
      | _ \<Rightarrow> None)"
| "pstep (PObjKey ms st) t = (case t of TStr k \<Rightarrow> Some (PObjColon ms k st) | _ \<Rightarrow> None)"
| "pstep (PObjColon ms k st) t = (if t = Colon then Some (PValue (ObjF ms k # st)) else None)"
| "pstep (PObjNext ms st) t =
     (if t = Comma then Some (PObjKey ms st)
      else if t = RBrace then Some (complete (JObj ms) st)
      else None)"
| "pstep (PDone v) t = None"

fun parse_tokens :: "pstate \<Rightarrow> json_token list \<Rightarrow> jsval option" where
  "parse_tokens ps [] = (case ps of PDone v \<Rightarrow> Some v | _ \<Rightarrow> None)"
| "parse_tokens ps (t # ts) =
     (case pstep ps t of None \<Rightarrow> None | Some ps' \<Rightarrow> parse_tokens ps' ts)"

text \<open>\<^verbatim>\<open>JSON.parse(text)\<close>; \<^term>\<open>None\<close> is the \<^verbatim>\<open>SyntaxError\<close>.\<close>

definition JSON_parse :: "string \<Rightarrow> jsval option" where
  "JSON_parse s = (case lexer s of None \<Rightarrow> None | Some ts \<Rightarrow> parse_tokens (PValue []) ts)"

subsection \<open>parseInt\<close>

text \<open>A JavaScript number as far as the module's result needs it: \<^verbatim>\<open>NaN\<close>, an integer that
  a double holds exactly (magnitude at most \<open>2\<^sup>5\<^sup>3\<close>; the sign of zero is not kept), or a value
  whose rounding and printing as a double is outside this model.\<close>

datatype number = NaN | Integer int | Unmodelled

definition exact :: "int \<Rightarrow> number" where
  "exact v = (if \<bar>v\<bar> \<le> 2 ^ 53 then Integer v else Unmodelled)"

text \<open>\<^verbatim>\<open>parseInt\<close> of a string with no radix given: leading white space, a sign, a
  \<^verbatim>\<open>0x\<close> prefix for radix 16, then the longest run of digits; \<^verbatim>\<open>NaN\<close> when the run is
  empty.\<close>

definition parseInt_text :: "string \<Rightarrow> number" where
  "parseInt_text s =
     (let s1 = dropWhile is_space s;
          neg = (case s1 of c # _ \<Rightarrow> c = CHR ''-'' | [] \<Rightarrow> False);
          signed = (case s1 of c # _ \<Rightarrow> c = CHR ''-'' \<or> c = CHR ''+'' | [] \<Rightarrow> False);
          s2 = (if signed then drop 1 s1 else s1);
          hex = (take 2 s2 = ''0x'' \<or> take 2 s2 = ''0X'');
          R = (if hex then 16 else 10);
          s3 = (if hex then drop 2 s2 else s2);
          z = takeWhile (radix_digit R) s3;
          v = int (digits_value R z)
      in if z = [] then NaN else exact (if neg then - v else v))"

text \<open>\<^verbatim>\<open>parseInt(v)\<close> converts \<open>v\<close> to a string first. \<^verbatim>\<open>undefined\<close>, \<^verbatim>\<open>null\<close>, a
  boolean and an object print as text without a leading digit. A number that is an integer of
  magnitude at most \<open>2\<^sup>5\<^sup>3\<close> prints as its decimal numeral, which is read back. How other
  numbers and arrays print is outside this model.\<close>

definition parseInt :: "jsval \<Rightarrow> number" where
  "parseInt v =
     (case v of
        JStr s \<Rightarrow> parseInt_text s
      | JNum m e \<Rightarrow>
          if 0 \<le> e then (case exact m of Integer _ \<Rightarrow> exact (m * 10 ^ nat e) | _ \<Rightarrow> Unmodelled)
          else if m mod 10 ^ nat (- e) = 0 then exact (m div 10 ^ nat (- e))
          else Unmodelled
      | JArr xs \<Rightarrow> Unmodelled
      | _ \<Rightarrow> NaN)"

subsection \<open>POST requests\<close>

text \<open>The object \<^verbatim>\<open>ret\<close> that \<^verbatim>\<open>requestComplete\<close> builds. Its \<^verbatim>\<open>scope\<close> property is the
  field \<open>ret_scope\<close>.\<close>

record token_result =
  access_token :: jsval
  refresh_token :: jsval
  token_type :: "string option"
  ret_scope :: jsval
  expires_in :: number

datatype js_exception = SyntaxError | TypeError

text \<open>Reading one of the properties \<^verbatim>\<open>access_token\<close>, \<^verbatim>\<open>refresh_token\<close>, \<^verbatim>\<open>scope\<close>,
  \<^verbatim>\<open>expires_in\<close> (names that no prototype defines): \<^verbatim>\<open>null\<close> throws, an object gives its
  own property or \<^verbatim>\<open>undefined\<close>, every other value gives \<^verbatim>\<open>undefined\<close>.\<close>

definition get_prop :: "jsval \<Rightarrow> string \<Rightarrow> js_exception + jsval" where
  "get_prop v k =
     (case v of
        JNull \<Rightarrow> Inl TypeError
      | JUndefined \<Rightarrow> Inl TypeError
      | JObj ms \<Rightarrow> Inr (case map_of ms k of None \<Rightarrow> JUndefined | Some x \<Rightarrow> x)
      | _ \<Rightarrow> Inr JUndefined)"

definition bind_exn :: "js_exception + 'a \<Rightarrow> ('a \<Rightarrow> js_exception + 'b) \<Rightarrow> js_exception + 'b" where
  "bind_exn r f = (case r of Inl e \<Rightarrow> Inl e | Inr a \<Rightarrow> f a)"

text \<open>The statements of the \<^verbatim>\<open>try\<close> block before the call of \<^verbatim>\<open>cb\<close>.\<close>

definition requestComplete_ret :: "string \<Rightarrow> options \<Rightarrow> js_exception + token_result" where
  "requestComplete_ret respData options =
     (case JSON_parse respData of
        None \<Rightarrow> Inl SyntaxError
      | Some sr \<Rightarrow>
          bind_exn (get_prop sr ''access_token'') (\<lambda>a.
          bind_exn (get_prop sr ''refresh_token'') (\<lambda>r.
          bind_exn (get_prop sr ''scope'') (\<lambda>sc.
          bind_exn (get_prop sr ''expires_in'') (\<lambda>e.
            Inr \<lparr>access_token = a, refresh_token = r, token_type = grantType options,
                 ret_scope = sc, expires_in = parseInt e\<rparr>)))))"

text \<open>\<^verbatim>\<open>try { ... } catch (SyntaxError) { handler }\<close>: the clause binds the exception to the
  name \<^verbatim>\<open>SyntaxError\<close> and so catches every exception, whatever threw it.\<close>

definition or_catch :: "'r run \<Rightarrow> 'r run \<Rightarrow> 'r run" where
  "or_catch a handler = (if snd a then (fst a @ fst handler, snd handler) else a)"

text \<open>The \<^verbatim>\<open>end\<close> handler of \<^verbatim>\<open>requestComplete\<close>. The call \<^verbatim>\<open>cb(undefined, ret)\<close> stands
  inside the \<^verbatim>\<open>try\<close> block.\<close>

definition requestComplete_end ::
  "response \<Rightarrow> options \<Rightarrow> token_result callback \<Rightarrow> string \<Rightarrow> token_result run" where
  "requestComplete_end resp options cb respData =
     (if 300 \<le> resp_statusCode resp
      then invoke cb (Some \<lparr>message = respData, statusCode = Some (resp_statusCode resp)\<rparr>, None)
      else (case requestComplete_ret respData options of
              Inl exn \<Rightarrow> invoke cb (None, None)
            | Inr ret \<Rightarrow> or_catch (invoke cb (None, Some ret)) (invoke cb (None, None))))"

fun requestComplete_events ::
  "response \<Rightarrow> options \<Rightarrow> token_result callback \<Rightarrow> string \<Rightarrow> resp_event list
     \<Rightarrow> token_result run" where
  "requestComplete_events resp options cb respData [] = ([], False)"
| "requestComplete_events resp options cb respData (ErrorEvent err # evs) =
     and_then (invoke cb (Some err, None)) (requestComplete_events resp options cb respData evs)"
| "requestComplete_events resp options cb respData (Readable chunks # evs) =
     requestComplete_events resp options cb (readResponse chunks respData) evs"
| "requestComplete_events resp options cb respData (End # evs) =
     and_then (requestComplete_end resp options cb respData)
       (requestComplete_events resp options cb respData evs)"

definition requestComplete ::
  "response \<Rightarrow> options \<Rightarrow> token_result callback \<Rightarrow> resp_event list \<Rightarrow> token_result run" where
  "requestComplete resp options cb evs = requestComplete_events resp options cb [] evs"

text \<open>\<^verbatim>\<open>makeRequest(self, verb, uriPath, body, options, cb)\<close>. The test
  \<^verbatim>\<open>typeof o === 'function'\<close> at its head reads an undeclared name and is always false.\<close>

definition makeRequest ::
  "spi \<Rightarrow> string \<Rightarrow> string \<Rightarrow> string \<Rightarrow> options \<Rightarrow> token_result callback \<Rightarrow> net
     \<Rightarrow> token_result effect" where
  "makeRequest self verb uriPath data options cb network =
     (let finalUri = uri self @ uriPath;
          log = [verb @ '' '' @ finalUri];
          hs = [(''Authorization'',
                 HStr (base64 (str_of (clientId options) @ '':'' @ str_of (clientSecret options))))];
          hs = AList.update ''x-DNA-Api-Key'' (HStr (key self)) hs;
          hs = (case tokenLifetime options of
                  None \<Rightarrow> hs
                | Some n \<Rightarrow> if n \<noteq> 0 then AList.update ''x-DNA-Token-Lifetime'' (HNum n) hs else hs);
          hs = (if data \<noteq> []
                then AList.update ''Content-Type'' (HStr ''application/x-www-form-urlencoded'') hs
                else hs);
          r = \<lparr>href = finalUri, protocol = url_protocol finalUri, http_method = verb,
               headers = hs, body = (if data \<noteq> [] then Some data else None)\<rparr>
      in if protocol r = Some ''http:'' \<or> protocol r = Some ''https:''
         then let run = (case network of
                           RequestError err \<Rightarrow> invoke cb (Some err, None)
                         | Response resp evs \<Rightarrow> requestComplete resp options cb evs)
              in \<lparr>logged = log, sent = [r], calls = fst run, uncaught = snd run\<rparr>
         else let run = invoke cb (Some (Error (''Unsupported protocol '' @ null_text (protocol r))), None)
              in \<lparr>logged = log, sent = [], calls = fst run, uncaught = snd run\<rparr>)"

text \<open>The five operations that post. Each of the four that issue a token writes its grant
  type into \<^verbatim>\<open>options.grantType\<close> before the request is made.
  \<^verbatim>\<open>spi.prototype.refreshToken\<close> is \<open>refreshToken_op\<close> here, \<open>refreshToken\<close> being the
  parameter.\<close>

definition createTokenClientCredentials ::
  "spi \<Rightarrow> options \<Rightarrow> token_result callback \<Rightarrow> net \<Rightarrow> token_result effect" where
  "createTokenClientCredentials self options cb network =
     (let qs = [(''grant_type'', Some ''client_credentials'')];
          qs = set_if (scope options) ''scope'' qs;
          data = stringify qs;
          options = options\<lparr>grantType := Some ''client_credentials''\<rparr>
      in makeRequest self ''POST'' ''/tokentypes/client/tokens'' data options cb network)"

definition createTokenPasswordCredentials ::
  "spi \<Rightarrow> options \<Rightarrow> token_result callback \<Rightarrow> net \<Rightarrow> token_result effect" where
  "createTokenPasswordCredentials self options cb network =
     (let qs = [(''grant_type'', Some ''password''), (''username'', username options),
                (''password'', password options)];
          qs = set_if (scope options) ''scope'' qs;
          data = stringify qs;
          options = options\<lparr>grantType := Some ''password''\<rparr>
      in makeRequest self ''POST'' ''/tokentypes/password/tokens'' data options cb network)"

definition createTokenAuthorizationCode ::
  "spi \<Rightarrow> options \<Rightarrow> token_result callback \<Rightarrow> net \<Rightarrow> token_result effect" where
  "createTokenAuthorizationCode self options cb network =
     (let qs = [(''grant_type'', Some ''authorization_code''), (''code'', code options)];
          qs = set_if (redirectUri options) ''redirect_uri'' qs;
          qs = set_if (clientId options) ''client_id'' qs;
          data = stringify qs;
          options = options\<lparr>grantType := Some ''authorization_code''\<rparr>
      in makeRequest self ''POST'' ''/tokentypes/authcode/tokens'' data options cb network)"

definition refreshToken_op ::
  "spi \<Rightarrow> options \<Rightarrow> token_result callback \<Rightarrow> net \<Rightarrow> token_result effect" where
  "refreshToken_op self options cb network =
     (let qs = [(''grant_type'', Some ''refresh_token''), (''refresh_token'', refreshToken options)];
          qs = set_if (scope options) ''scope'' qs;
          data = stringify qs;
          options = options\<lparr>grantType := Some ''refresh_token''\<rparr>
      in makeRequest self ''POST'' ''/tokentypes/all/refresh'' data options cb network)"

definition invalidateToken ::
  "spi \<Rightarrow> options \<Rightarrow> token_result callback \<Rightarrow> net \<Rightarrow> token_result effect" where
  "invalidateToken self options cb network =
     (let qs = [];
          qs = (if truthy (refreshToken options)
                then AList.update ''token_type_hint'' (Some ''refresh_token'')
                       (AList.update ''token'' (refreshToken options) qs)
                else AList.update ''token_type_hint'' (Some ''access_token'')
                       (AList.update ''token'' (accessToken options) qs));
          data = stringify qs
      in makeRequest self ''POST'' ''/tokentypes/all/invalidate'' data options cb network)"

subsection \<open>Notation for the statements\<close>

text \<open>The parameter object \<^verbatim>\<open>{}\<close>.\<close>

definition no_options :: options where
  "no_options =
     \<lparr>clientId = None, clientSecret = None, scope = None, tokenLifetime = None,
      username = None, password = None, code = None, redirectUri = None, state = None,
      refreshToken = None, accessToken = None, grantType = None\<rparr>"

text \<open>An optional field of a query string: \<^verbatim>\<open>&key=value\<close> when the value is truthy,
  nothing otherwise. It is used to write down what \<^const>\<open>stringify\<close> returns.\<close>

definition amp_field :: "string \<Rightarrow> string option \<Rightarrow> string" where
  "amp_field k v = (if truthy v then ''&'' @ k @ ''='' @ escape (stringifyPrimitive v) else [])"

text \<open>The header that carries \<^verbatim>\<open>options.tokenLifetime\<close>, when that is a number other than
  zero.\<close>

definition lifetime_header :: "options \<Rightarrow> (string \<times> header_value) list" where
  "lifetime_header options =
     (case tokenLifetime options of
        None \<Rightarrow> []
      | Some n \<Rightarrow> if n \<noteq> 0 then [(''x-DNA-Token-Lifetime'', HNum n)] else [])"

section \<open>Properties\<close>

subsection \<open>Auxiliary facts\<close>

lemma readResponse_concat: "readResponse chunks data = data @ concat chunks"
  by (induction chunks arbitrary: data) auto

lemma and_then_nothing: "and_then a ([], False) = a"
  by (cases a) (simp add: and_then_def)

lemma getRequestComplete_readable_end:
  "getRequestComplete_events resp options cb d (map Readable chunks @ [End]) =
     getRequestComplete_end resp cb (d @ concat (concat chunks))"
  by (induction chunks arbitrary: d) (simp_all add: and_then_nothing readResponse_concat)

lemma requestComplete_readable_end:
  "requestComplete_events resp options cb d (map Readable chunks @ [End]) =
     requestComplete_end resp options cb (d @ concat (concat chunks))"
  by (induction chunks arbitrary: d) (simp_all add: and_then_nothing readResponse_concat)

text \<open>The protocol of a URL is decided by its head: appending a path keeps it.\<close>

lemma url_protocol_append:
  assumes "url_protocol u = Some p"
  shows "url_protocol (u @ v) = Some p"
proof -
  define rest where "rest = dropWhile is_space u"
  from assms obtain c cs where d: "dropWhile scheme_char rest = c # cs"
    and n: "takeWhile scheme_char rest \<noteq> []" and c: "c = CHR '':''"
    and p: "p = map to_lower (takeWhile scheme_char rest) @ '':''"
    unfolding url_protocol_def Let_def rest_def
    by (auto split: list.splits if_splits)
  from n have "rest \<noteq> []" by auto
  then have "\<exists>x\<in>set u. \<not> is_space x"
    unfolding rest_def by (metis dropWhile_eq_Nil_conv)
  then have r: "dropWhile is_space (u @ v) = rest @ v"
    unfolding rest_def by auto
  have "c \<in> set rest" using d by (metis list.set_intros(1) set_dropWhileD)
  moreover have nc: "\<not> scheme_char c"
    using d by (metis hd_dropWhile list.sel(1) list.distinct(1))
  ultimately have "takeWhile scheme_char (rest @ v) = takeWhile scheme_char rest"
    and "dropWhile scheme_char (rest @ v) = dropWhile scheme_char rest @ v"
    by auto
  then show ?thesis
    unfolding url_protocol_def Let_def r using d n c p by simp
qed

lemma escape_unreserved: "list_all unreserved s \<Longrightarrow> escape s = s"
  by (induction s) (simp_all add: escape_def escape_char_def)

lemma join_snoc: "xs \<noteq> [] \<Longrightarrow> join sep (xs @ [x]) = join sep xs @ sep @ x"
  by (induction sep xs rule: join.induct) auto

lemma stringify_snoc:
  "qs \<noteq> [] \<Longrightarrow> stringify (qs @ [(k, v)]) = stringify qs @ ''&'' @ escape k @ ''='' @ escape (stringifyPrimitive v)"
  by (simp add: stringify_def join_snoc stringify_pair_def)

lemma update_absent: "k \<notin> fst ` set qs \<Longrightarrow> AList.update k v qs = qs @ [(k, v)]"
  by (induction qs) auto

lemma set_if_keys: "fst ` set (set_if v k qs) \<subseteq> insert k (fst ` set qs)"
  by (auto simp: set_if_def AList.dom_update)

lemma set_if_not_Nil: "qs \<noteq> [] \<Longrightarrow> set_if v k qs \<noteq> []"
  by (cases qs) (auto simp: set_if_def)

lemma stringify_set_if:
  "qs \<noteq> [] \<Longrightarrow> k \<notin> fst ` set qs \<Longrightarrow> list_all unreserved k \<Longrightarrow>
     stringify (set_if v k qs) = stringify qs @ amp_field k v"
  by (simp add: set_if_def amp_field_def update_absent stringify_snoc escape_unreserved)

lemma stringify_two:
  "stringify [(k1, v1), (k2, v2)] =
     escape k1 @ ''='' @ escape (stringifyPrimitive v1) @ ''&'' @ escape k2 @ ''='' @ escape (stringifyPrimitive v2)"
  by (simp add: stringify_def stringify_pair_def)

lemma stringify_one:
  "stringify [(k1, v1)] = escape k1 @ ''='' @ escape (stringifyPrimitive v1)"
  by (simp add: stringify_def stringify_pair_def)

lemma literals_unreserved:
  "list_all unreserved ''response_type''" "list_all unreserved ''client_id''"
  "list_all unreserved ''redirect_uri''" "list_all unreserved ''scope''"
  "list_all unreserved ''state''" "list_all unreserved ''grant_type''"
  "list_all unreserved ''username''" "list_all unreserved ''password''"
  "list_all unreserved ''code''" "list_all unreserved ''refresh_token''"
  "list_all unreserved ''token''" "list_all unreserved ''token_type_hint''"
  "list_all unreserved ''client_credentials''" "list_all unreserved ''authorization_code''"
  "list_all unreserved ''access_token''"
  by code_simp+

lemma escape_literals:
  "escape ''response_type'' = ''response_type''" "escape ''client_id'' = ''client_id''"
  "escape ''grant_type'' = ''grant_type''" "escape ''username'' = ''username''"
  "escape ''password'' = ''password''" "escape ''code'' = ''code''"
  "escape ''refresh_token'' = ''refresh_token''" "escape ''token'' = ''token''"
  "escape ''token_type_hint'' = ''token_type_hint''"
  "escape ''client_credentials'' = ''client_credentials''"
  "escape ''authorization_code'' = ''authorization_code''"
  "escape ''access_token'' = ''access_token''"
  by code_simp+

lemma generateAuthorizationCode_query:
  "stringify
     (set_if (state options) ''state''
       (set_if (scope options) ''scope''
         (set_if (redirectUri options) ''redirect_uri''
           [(''response_type'', Some ''code''), (''client_id'', clientId options)]))) =
   ''response_type=code&client_id='' @ escape (stringifyPrimitive (clientId options))
     @ amp_field ''redirect_uri'' (redirectUri options)
     @ amp_field ''scope'' (scope options) @ amp_field ''state'' (state options)"
proof -
  let ?q0 = "[(''response_type'', Some ''code''), (''client_id'', clientId options)]"
  let ?q1 = "set_if (redirectUri options) ''redirect_uri'' ?q0"
  let ?q2 = "set_if (scope options) ''scope'' ?q1"
  have k1: "fst ` set ?q1 \<subseteq> {''redirect_uri'', ''response_type'', ''client_id''}"
    using set_if_keys [of "redirectUri options" "''redirect_uri''" ?q0] by auto
  have k2: "fst ` set ?q2 \<subseteq> {''scope'', ''redirect_uri'', ''response_type'', ''client_id''}"
    using set_if_keys [of "scope options" "''scope''" ?q1] k1 by auto
  have n1: "?q1 \<noteq> []" by (rule set_if_not_Nil) simp
  have n2: "?q2 \<noteq> []" using n1 by (rule set_if_not_Nil)
  have "stringify (set_if (state options) ''state'' ?q2) = stringify ?q2 @ amp_field ''state'' (state options)"
    using n2 k2 by (intro stringify_set_if literals_unreserved) auto
  also have "stringify ?q2 = stringify ?q1 @ amp_field ''scope'' (scope options)"
    using n1 k1 by (intro stringify_set_if literals_unreserved) auto
  also have "stringify ?q1 = stringify ?q0 @ amp_field ''redirect_uri'' (redirectUri options)"
    by (intro stringify_set_if literals_unreserved) auto
  also have "stringify ?q0 = ''response_type=code&client_id='' @ escape (stringifyPrimitive (clientId options))"
    by (simp add: stringify_two escape_literals stringifyPrimitive_def)
  finally show ?thesis by simp
qed


lemma createTokenImplicitGrant_query:
  "stringify
     (set_if (state options) ''state''
       (set_if (scope options) ''scope''
         (set_if (redirectUri options) ''redirect_uri''
           [(''response_type'', Some ''token''), (''client_id'', clientId options)]))) =
   ''response_type=token&client_id='' @ escape (stringifyPrimitive (clientId options))
     @ amp_field ''redirect_uri'' (redirectUri options)
     @ amp_field ''scope'' (scope options) @ amp_field ''state'' (state options)"
proof -
  let ?q0 = "[(''response_type'', Some ''token''), (''client_id'', clientId options)]"
  let ?q1 = "set_if (redirectUri options) ''redirect_uri'' ?q0"
  let ?q2 = "set_if (scope options) ''scope'' ?q1"
  have k1: "fst ` set ?q1 \<subseteq> {''redirect_uri'', ''response_type'', ''client_id''}"
    using set_if_keys [of "redirectUri options" "''redirect_uri''" ?q0] by auto
  have k2: "fst ` set ?q2 \<subseteq> {''scope'', ''redirect_uri'', ''response_type'', ''client_id''}"
    using set_if_keys [of "scope options" "''scope''" ?q1] k1 by auto
  have n1: "?q1 \<noteq> []" by (rule set_if_not_Nil) simp
  have n2: "?q2 \<noteq> []" using n1 by (rule set_if_not_Nil)
  have "stringify (set_if (state options) ''state'' ?q2) = stringify ?q2 @ amp_field ''state'' (state options)"
    using n2 k2 by (intro stringify_set_if literals_unreserved) auto
  also have "stringify ?q2 = stringify ?q1 @ amp_field ''scope'' (scope options)"
    using n1 k1 by (intro stringify_set_if literals_unreserved) auto
  also have "stringify ?q1 = stringify ?q0 @ amp_field ''redirect_uri'' (redirectUri options)"
    by (intro stringify_set_if literals_unreserved) auto
  also have "stringify ?q0 = ''response_type=token&client_id='' @ escape (stringifyPrimitive (clientId options))"
    by (simp add: stringify_two escape_literals stringifyPrimitive_def)
  finally show ?thesis by simp
qed

lemma makeGetRequest_supported:
  assumes "url_protocol (uri self) = Some ''http:'' \<or> url_protocol (uri self) = Some ''https:''"
  shows "makeGetRequest self path q options cb network =
     (let run = (case network of
                   RequestError err \<Rightarrow> invoke cb (Some err, None)
                 | Response resp evs \<Rightarrow> getRequestComplete resp options cb evs)
      in \<lparr>logged = [''GET '' @ uri self @ path @ ''?'' @ q],
          sent = [\<lparr>href = uri self @ path @ ''?'' @ q, protocol = url_protocol (uri self),
                   http_method = ''GET'', headers = [(''x-DNA-Api-Key'', HStr (key self))],
                   body = None\<rparr>],
          calls = fst run, uncaught = snd run\<rparr>)"
proof -
  from assms obtain p where p: "url_protocol (uri self) = Some p" "p = ''http:'' \<or> p = ''https:''"
    by auto
  have "url_protocol (uri self @ path @ ''?'' @ q) = Some p"
    using p(1) by (rule url_protocol_append)
  with p show ?thesis
    unfolding makeGetRequest_def Let_def by auto
qed

lemma first_field:
  "list_all (\<lambda>c. c \<noteq> CHR ''&'') a \<Longrightarrow> takeWhile (\<lambda>c. c \<noteq> CHR ''&'') (a @ CHR ''&'' # b) = a"
  by (induction a) auto

lemma generateAuthorizationCode_sent:
  assumes "url_protocol (uri self) = Some ''http:'' \<or> url_protocol (uri self) = Some ''https:''"
  shows "sent (generateAuthorizationCode self options cb network) =
     [\<lparr>href = uri self @ ''/tokentypes/authcode/authcodes?'' @ ''response_type=code'' @
               ''&client_id='' @ escape (stringifyPrimitive (clientId options))
               @ amp_field ''redirect_uri'' (redirectUri options)
               @ amp_field ''scope'' (scope options) @ amp_field ''state'' (state options),
        protocol = url_protocol (uri self), http_method = ''GET'',
        headers = [(''x-DNA-Api-Key'', HStr (key self))], body = None\<rparr>]"
  unfolding generateAuthorizationCode_def Let_def makeGetRequest_supported [OF assms]
    generateAuthorizationCode_query
  by simp

lemma createTokenImplicitGrant_sent:
  assumes "url_protocol (uri self) = Some ''http:'' \<or> url_protocol (uri self) = Some ''https:''"
  shows "sent (createTokenImplicitGrant self options cb network) =
     [\<lparr>href = uri self @ ''/tokentypes/implicit/tokens?'' @ ''response_type=token'' @
               ''&client_id='' @ escape (stringifyPrimitive (clientId options))
               @ amp_field ''redirect_uri'' (redirectUri options)
               @ amp_field ''scope'' (scope options) @ amp_field ''state'' (state options),
        protocol = url_protocol (uri self), http_method = ''GET'',
        headers = [(''x-DNA-Api-Key'', HStr (key self))], body = None\<rparr>]"
  unfolding createTokenImplicitGrant_def Let_def makeGetRequest_supported [OF assms]
    createTokenImplicitGrant_query
  by simp

subsection \<open>The constructor\<close>

text \<open>
  C9. Constructing the adapter without \<^verbatim>\<open>uri\<close>, or with \<^verbatim>\<open>uri\<close> and without \<^verbatim>\<open>key\<close>,
  throws at once: the constructor returns the error and nothing else happens (it has no
  request among its results). With both given as non-empty strings it returns the adapter
  whose two fields are the given \<^verbatim>\<open>uri\<close> and \<^verbatim>\<open>key\<close>. The last conjunct is the exact
  condition: an adapter is built if and only if both are truthy, so an empty string counts as
  missing.
\<close>

theorem spi_constructor:
  "(opt_uri options = None \<longrightarrow> spi options = Inl (Error ''uri parameter must be specified''))
   \<and> (opt_uri options = Some u \<and> u \<noteq> [] \<and> opt_key options = None
        \<longrightarrow> spi options = Inl (Error ''key parameter must be specified''))
   \<and> (opt_uri options = Some u \<and> u \<noteq> [] \<and> opt_key options = Some k \<and> k \<noteq> []
        \<longrightarrow> spi options = Inr \<lparr>uri = u, key = k\<rparr>)
   \<and> ((\<exists>a. spi options = Inr a) = (truthy (opt_uri options) \<and> truthy (opt_key options)))"
  by (auto simp: spi_def truthy_def split: option.splits)

theorem spi_constructor_witness:
  "spi \<lparr>opt_uri = None, opt_key = Some ''K''\<rparr> = Inl (Error ''uri parameter must be specified'')
   \<and> spi \<lparr>opt_uri = Some ''https://backend.example/oauth'', opt_key = None\<rparr>
       = Inl (Error ''key parameter must be specified'')
   \<and> spi \<lparr>opt_uri = Some ''https://backend.example/oauth'', opt_key = Some ''K''\<rparr>
       = Inr \<lparr>uri = ''https://backend.example/oauth'', key = ''K''\<rparr>"
  using spi_constructor [of "\<lparr>opt_uri = None, opt_key = Some ''K''\<rparr>"]
    spi_constructor [of "\<lparr>opt_uri = Some ''https://backend.example/oauth'', opt_key = None\<rparr>"
      "''https://backend.example/oauth''"]
    spi_constructor [of "\<lparr>opt_uri = Some ''https://backend.example/oauth'', opt_key = Some ''K''\<rparr>"
      "''https://backend.example/oauth''" "''K''"]
  by simp

subsection \<open>The operations that GET\<close>

text \<open>
  C1. For both operations that GET (the base URI being an http or https URL, so that the
  request is made), when the response has been read to its end the callback is called once:
  with no error and the \<^verbatim>\<open>location\<close> header as the result if the status is 302, whatever
  the body; otherwise, also for status 200, with an error whose \<^verbatim>\<open>statusCode\<close> is the status
  and whose \<^verbatim>\<open>message\<close> is the body read, and no result.
\<close>

theorem get_operations_succeed_iff_302:
  assumes "op = generateAuthorizationCode \<or> op = createTokenImplicitGrant"
    and "url_protocol (uri self) = Some ''http:'' \<or> url_protocol (uri self) = Some ''https:''"
  shows "calls (op self options cb (Response resp (map Readable chunks @ [End]))) =
           (if resp_statusCode resp = 302 then [(None, resp_headers resp ''location'')]
            else [(Some \<lparr>message = concat (concat chunks),
                         statusCode = Some (resp_statusCode resp)\<rparr>, None)])"
  using assms(1)
  unfolding generateAuthorizationCode_def createTokenImplicitGrant_def Let_def
  by (auto simp: makeGetRequest_supported [OF assms(2)] getRequestComplete_def
      getRequestComplete_readable_end getRequestComplete_end_def invoke_def)

theorem get_operations_succeed_iff_302_witness:
  "calls (generateAuthorizationCode \<lparr>uri = ''https://backend.example/oauth'', key = ''K''\<rparr>
            no_options (\<lambda>_. False)
            (Response \<lparr>resp_statusCode = 200,
                       resp_headers = [''location'' \<mapsto> ''https://app/callback?code=abc'']\<rparr>
               (map Readable [[''not '', ''a ''], [''redirect'']] @ [End])))
     = [(Some \<lparr>message = ''not a redirect'', statusCode = Some 200\<rparr>, None)]
   \<and> calls (createTokenImplicitGrant \<lparr>uri = ''https://backend.example/oauth'', key = ''K''\<rparr>
            no_options (\<lambda>_. False)
            (Response \<lparr>resp_statusCode = 302,
                       resp_headers = [''location'' \<mapsto> ''https://app/callback?code=abc'']\<rparr>
               (map Readable [[''ignored'']] @ [End])))
     = [(None, Some ''https://app/callback?code=abc'')]"
proof -
  have p: "url_protocol (uri \<lparr>uri = ''https://backend.example/oauth'', key = ''K''\<rparr>) = Some ''http:''
         \<or> url_protocol (uri \<lparr>uri = ''https://backend.example/oauth'', key = ''K''\<rparr>) = Some ''https:''"
    by code_simp
  show ?thesis
    using get_operations_succeed_iff_302 [OF disjI1 [OF refl] p, of no_options "\<lambda>_. False"
        "\<lparr>resp_statusCode = 200, resp_headers = [''location'' \<mapsto> ''https://app/callback?code=abc'']\<rparr>"
        "[[''not '', ''a ''], [''redirect'']]"]
      get_operations_succeed_iff_302 [OF disjI2 [OF refl] p, of no_options "\<lambda>_. False"
        "\<lparr>resp_statusCode = 302, resp_headers = [''location'' \<mapsto> ''https://app/callback?code=abc'']\<rparr>"
        "[[''ignored'']]"]
    by simp
qed

text \<open>
  C10. Both operations that GET put a fixed \<^verbatim>\<open>response_type\<close> first in the query string,
  whatever the parameters: \<^verbatim>\<open>response_type=code\<close> for \<^verbatim>\<open>generateAuthorizationCode\<close> and
  \<^verbatim>\<open>response_type=token\<close> for \<^verbatim>\<open>createTokenImplicitGrant\<close>. The query string is what
  follows the path and \<^verbatim>\<open>?\<close> in the URL requested; its first field is the text before the
  first \<^verbatim>\<open>&\<close>.
\<close>

theorem get_operations_response_type:
  assumes "url_protocol (uri self) = Some ''http:'' \<or> url_protocol (uri self) = Some ''https:''"
  shows "(\<exists>r q. sent (generateAuthorizationCode self options cb network) = [r]
            \<and> href r = uri self @ ''/tokentypes/authcode/authcodes?'' @ q
            \<and> takeWhile (\<lambda>c. c \<noteq> CHR ''&'') q = ''response_type=code'')
       \<and> (\<exists>r q. sent (createTokenImplicitGrant self options cb network) = [r]
            \<and> href r = uri self @ ''/tokentypes/implicit/tokens?'' @ q
            \<and> takeWhile (\<lambda>c. c \<noteq> CHR ''&'') q = ''response_type=token'')"
proof -
  define tail where
    "tail = ''client_id='' @ escape (stringifyPrimitive (clientId options))
       @ amp_field ''redirect_uri'' (redirectUri options)
       @ amp_field ''scope'' (scope options) @ amp_field ''state'' (state options)"
  obtain r1 where r1: "sent (generateAuthorizationCode self options cb network) = [r1]"
    and h1: "href r1 = uri self @ ''/tokentypes/authcode/authcodes?'' @ (''response_type=code'' @ CHR ''&'' # tail)"
    unfolding tail_def by (simp add: generateAuthorizationCode_sent [OF assms])
  obtain r2 where r2: "sent (createTokenImplicitGrant self options cb network) = [r2]"
    and h2: "href r2 = uri self @ ''/tokentypes/implicit/tokens?'' @ (''response_type=token'' @ CHR ''&'' # tail)"
    unfolding tail_def by (simp add: createTokenImplicitGrant_sent [OF assms])
  have t1: "takeWhile (\<lambda>c. c \<noteq> CHR ''&'') (''response_type=code'' @ CHR ''&'' # tail) = ''response_type=code''"
    by (rule first_field) simp
  have t2: "takeWhile (\<lambda>c. c \<noteq> CHR ''&'') (''response_type=token'' @ CHR ''&'' # tail) = ''response_type=token''"
    by (rule first_field) simp
  from r1 h1 t1 r2 h2 t2 show ?thesis by blast
qed

theorem get_operations_response_type_witness:
  "(\<exists>r q. sent (generateAuthorizationCode \<lparr>uri = ''http://backend.example'', key = ''K''\<rparr>
               (no_options\<lparr>clientId := Some ''app 1'', state := Some ''xyz''\<rparr>) (\<lambda>_. False)
               (RequestError (Error ''ECONNREFUSED''))) = [r]
          \<and> href r = ''http://backend.example'' @ ''/tokentypes/authcode/authcodes?'' @ q
          \<and> takeWhile (\<lambda>c. c \<noteq> CHR ''&'') q = ''response_type=code'')
   \<and> (\<exists>r q. sent (createTokenImplicitGrant \<lparr>uri = ''http://backend.example'', key = ''K''\<rparr>
               (no_options\<lparr>clientId := Some ''app 1'', state := Some ''xyz''\<rparr>) (\<lambda>_. False)
               (RequestError (Error ''ECONNREFUSED''))) = [r]
          \<and> href r = ''http://backend.example'' @ ''/tokentypes/implicit/tokens?'' @ q
          \<and> takeWhile (\<lambda>c. c \<noteq> CHR ''&'') q = ''response_type=token'')"
proof -
  have p: "url_protocol (uri \<lparr>uri = ''http://backend.example'', key = ''K''\<rparr>) = Some ''http:''
         \<or> url_protocol (uri \<lparr>uri = ''http://backend.example'', key = ''K''\<rparr>) = Some ''https:''"
    by code_simp
  show ?thesis
    using get_operations_response_type [OF p,
        of "no_options\<lparr>clientId := Some ''app 1'', state := Some ''xyz''\<rparr>" "\<lambda>_. False"
        "RequestError (Error ''ECONNREFUSED'')"]
    by simp
qed

subsection \<open>The operations that POST\<close>

lemma makeRequest_supported:
  assumes "url_protocol (uri self) = Some ''http:'' \<or> url_protocol (uri self) = Some ''https:''"
    and "data \<noteq> []"
  shows "makeRequest self verb path data options cb network =
     (let run = (case network of
                   RequestError err \<Rightarrow> invoke cb (Some err, None)
                 | Response resp evs \<Rightarrow> requestComplete resp options cb evs)
      in \<lparr>logged = [verb @ '' '' @ uri self @ path],
          sent = [\<lparr>href = uri self @ path, protocol = url_protocol (uri self),
                   http_method = verb,
                   headers =
                     [(''Authorization'',
                       HStr (base64 (str_of (clientId options) @ '':'' @ str_of (clientSecret options)))),
                      (''x-DNA-Api-Key'', HStr (key self))]
                     @ lifetime_header options
                     @ [(''Content-Type'', HStr ''application/x-www-form-urlencoded'')],
                   body = Some data\<rparr>],
          calls = fst run, uncaught = snd run\<rparr>)"
proof -
  from assms obtain p where p: "url_protocol (uri self) = Some p" "p = ''http:'' \<or> p = ''https:''"
    by auto
  have "url_protocol (uri self @ path) = Some p"
    using p(1) by (rule url_protocol_append)
  with p assms(2) show ?thesis
    unfolding makeRequest_def Let_def lifetime_header_def
    by (auto split: option.splits)
qed

lemma stringify_three:
  "stringify [(k1, v1), (k2, v2), (k3, v3)] =
     escape k1 @ ''='' @ escape (stringifyPrimitive v1) @ ''&'' @ escape k2 @ ''='' @ escape (stringifyPrimitive v2)
     @ ''&'' @ escape k3 @ ''='' @ escape (stringifyPrimitive v3)"
  by (simp add: stringify_def stringify_pair_def)

lemma createTokenClientCredentials_body:
  "stringify (set_if (scope options) ''scope'' [(''grant_type'', Some ''client_credentials'')]) =
     ''grant_type=client_credentials'' @ amp_field ''scope'' (scope options)"
proof -
  have "stringify (set_if (scope options) ''scope'' [(''grant_type'', Some ''client_credentials'')]) =
      stringify [(''grant_type'', Some ''client_credentials'')] @ amp_field ''scope'' (scope options)"
    by (intro stringify_set_if literals_unreserved) auto
  then show ?thesis
    by (simp add: stringify_one escape_literals stringifyPrimitive_def)
qed

lemma createTokenPasswordCredentials_body:
  "stringify (set_if (scope options) ''scope''
      [(''grant_type'', Some ''password''), (''username'', username options),
       (''password'', password options)]) =
     ''grant_type=password'' @ ''&username='' @ escape (stringifyPrimitive (username options))
       @ ''&password='' @ escape (stringifyPrimitive (password options))
       @ amp_field ''scope'' (scope options)"
proof -
  let ?q0 = "[(''grant_type'', Some ''password''), (''username'', username options),
       (''password'', password options)]"
  have "stringify (set_if (scope options) ''scope'' ?q0) =
      stringify ?q0 @ amp_field ''scope'' (scope options)"
    by (intro stringify_set_if literals_unreserved) auto
  then show ?thesis
    by (simp add: stringify_three escape_literals stringifyPrimitive_def)
qed

lemma createTokenAuthorizationCode_body:
  "stringify (set_if (clientId options) ''client_id''
      (set_if (redirectUri options) ''redirect_uri''
        [(''grant_type'', Some ''authorization_code''), (''code'', code options)])) =
     ''grant_type=authorization_code'' @ ''&code='' @ escape (stringifyPrimitive (code options))
       @ amp_field ''redirect_uri'' (redirectUri options)
       @ amp_field ''client_id'' (clientId options)"
proof -
  let ?q0 = "[(''grant_type'', Some ''authorization_code''), (''code'', code options)]"
  let ?q1 = "set_if (redirectUri options) ''redirect_uri'' ?q0"
  have k1: "fst ` set ?q1 \<subseteq> {''redirect_uri'', ''grant_type'', ''code''}"
    using set_if_keys [of "redirectUri options" "''redirect_uri''" ?q0] by auto
  have n1: "?q1 \<noteq> []" by (rule set_if_not_Nil) simp
  have "stringify (set_if (clientId options) ''client_id'' ?q1) =
      stringify ?q1 @ amp_field ''client_id'' (clientId options)"
    using n1 k1 by (intro stringify_set_if literals_unreserved) auto
  also have "stringify ?q1 = stringify ?q0 @ amp_field ''redirect_uri'' (redirectUri options)"
    by (intro stringify_set_if literals_unreserved) auto
  also have "stringify ?q0 =
      ''grant_type=authorization_code'' @ ''&code='' @ escape (stringifyPrimitive (code options))"
    by (simp add: stringify_two escape_literals stringifyPrimitive_def)
  finally show ?thesis by simp
qed

lemma refreshToken_body:
  "stringify (set_if (scope options) ''scope''
      [(''grant_type'', Some ''refresh_token''), (''refresh_token'', refreshToken options)]) =
     ''grant_type=refresh_token'' @ ''&refresh_token='' @ escape (stringifyPrimitive (refreshToken options))
       @ amp_field ''scope'' (scope options)"
proof -
  let ?q0 = "[(''grant_type'', Some ''refresh_token''), (''refresh_token'', refreshToken options)]"
  have "stringify (set_if (scope options) ''scope'' ?q0) =
      stringify ?q0 @ amp_field ''scope'' (scope options)"
    by (intro stringify_set_if literals_unreserved) auto
  then show ?thesis
    by (simp add: stringify_two escape_literals stringifyPrimitive_def)
qed

lemma createTokenClientCredentials_unfold:
  "createTokenClientCredentials self options cb network =
     makeRequest self ''POST'' ''/tokentypes/client/tokens''
       (''grant_type=client_credentials'' @ amp_field ''scope'' (scope options))
       (options\<lparr>grantType := Some ''client_credentials''\<rparr>) cb network"
  unfolding createTokenClientCredentials_def Let_def createTokenClientCredentials_body ..

lemma createTokenPasswordCredentials_unfold:
  "createTokenPasswordCredentials self options cb network =
     makeRequest self ''POST'' ''/tokentypes/password/tokens''
       (''grant_type=password'' @ ''&username='' @ escape (stringifyPrimitive (username options))
         @ ''&password='' @ escape (stringifyPrimitive (password options))
         @ amp_field ''scope'' (scope options))
       (options\<lparr>grantType := Some ''password''\<rparr>) cb network"
  unfolding createTokenPasswordCredentials_def Let_def createTokenPasswordCredentials_body ..

lemma createTokenAuthorizationCode_unfold:
  "createTokenAuthorizationCode self options cb network =
     makeRequest self ''POST'' ''/tokentypes/authcode/tokens''
       (''grant_type=authorization_code'' @ ''&code='' @ escape (stringifyPrimitive (code options))
         @ amp_field ''redirect_uri'' (redirectUri options)
         @ amp_field ''client_id'' (clientId options))
       (options\<lparr>grantType := Some ''authorization_code''\<rparr>) cb network"
  unfolding createTokenAuthorizationCode_def Let_def createTokenAuthorizationCode_body ..

lemma refreshToken_unfold:
  "refreshToken_op self options cb network =
     makeRequest self ''POST'' ''/tokentypes/all/refresh''
       (''grant_type=refresh_token'' @ ''&refresh_token=''
         @ escape (stringifyPrimitive (refreshToken options))
         @ amp_field ''scope'' (scope options))
       (options\<lparr>grantType := Some ''refresh_token''\<rparr>) cb network"
  unfolding refreshToken_op_def Let_def refreshToken_body ..

lemma invalidateToken_unfold:
  "invalidateToken self options cb network =
     makeRequest self ''POST'' ''/tokentypes/all/invalidate''
       (if truthy (refreshToken options)
        then ''token='' @ escape (stringifyPrimitive (refreshToken options))
               @ ''&token_type_hint=refresh_token''
        else ''token='' @ escape (stringifyPrimitive (accessToken options))
               @ ''&token_type_hint=access_token'')
       options cb network"
  unfolding invalidateToken_def Let_def
  by (simp add: stringify_two escape_literals stringifyPrimitive_def [of "Some x" for x])

text \<open>Every operation that posts is one call of \<^const>\<open>makeRequest\<close> with the verb POST, a
  body that is not empty, and the caller's parameters with at most \<^verbatim>\<open>grantType\<close> written.\<close>

lemma post_operation_form:
  assumes "op \<in> {createTokenClientCredentials, createTokenPasswordCredentials,
                 createTokenAuthorizationCode, refreshToken_op, invalidateToken}"
  shows "\<exists>path data g. data \<noteq> [] \<and>
           op self options cb network =
             makeRequest self ''POST'' path data (options\<lparr>grantType := g\<rparr>) cb network"
proof -
  have inv: "invalidateToken self options cb network =
     makeRequest self ''POST'' ''/tokentypes/all/invalidate''
       (if truthy (refreshToken options)
        then ''token='' @ escape (stringifyPrimitive (refreshToken options))
               @ ''&token_type_hint=refresh_token''
        else ''token='' @ escape (stringifyPrimitive (accessToken options))
               @ ''&token_type_hint=access_token'')
       (options\<lparr>grantType := grantType options\<rparr>) cb network"
    by (simp add: invalidateToken_unfold)
  from assms consider "op = createTokenClientCredentials" | "op = createTokenPasswordCredentials"
    | "op = createTokenAuthorizationCode" | "op = refreshToken_op" | "op = invalidateToken"
    by auto
  then show ?thesis
  proof cases
    case 1
    show ?thesis unfolding 1 createTokenClientCredentials_unfold
      by (intro exI conjI, rule_tac [2] refl) simp
  next
    case 2
    show ?thesis unfolding 2 createTokenPasswordCredentials_unfold
      by (intro exI conjI, rule_tac [2] refl) simp
  next
    case 3
    show ?thesis unfolding 3 createTokenAuthorizationCode_unfold
      by (intro exI conjI, rule_tac [2] refl) simp
  next
    case 4
    show ?thesis unfolding 4 refreshToken_unfold
      by (intro exI conjI, rule_tac [2] refl) simp
  next
    case 5
    show ?thesis unfolding 5 inv
      by (intro exI conjI, rule_tac [2] refl) simp
  qed
qed

lemma post_operation_calls:
  assumes "op \<in> {createTokenClientCredentials, createTokenPasswordCredentials,
                 createTokenAuthorizationCode, refreshToken_op, invalidateToken}"
    and "url_protocol (uri self) = Some ''http:'' \<or> url_protocol (uri self) = Some ''https:''"
  shows "\<exists>g. calls (op self options cb (Response resp (map Readable chunks @ [End]))) =
           fst (requestComplete_end resp (options\<lparr>grantType := g\<rparr>) cb (concat (concat chunks)))"
proof -
  from post_operation_form [OF assms(1)] obtain path data g where d: "data \<noteq> []"
    and f: "op self options cb (Response resp (map Readable chunks @ [End])) =
      makeRequest self ''POST'' path data (options\<lparr>grantType := g\<rparr>) cb
        (Response resp (map Readable chunks @ [End]))"
    by blast
  show ?thesis
    unfolding f makeRequest_supported [OF assms(2) d] Let_def
    by (rule exI [of _ g]) (simp add: requestComplete_def requestComplete_readable_end)
qed

text \<open>
  C3. For each of the five operations that POST (the base URI being an http or https URL),
  when the response has been read to its end, its status is below 300 and its body is not
  JSON (\<^verbatim>\<open>JSON.parse\<close> throws), the callback is called once, with neither an error nor a
  result.
\<close>

theorem post_not_json_is_empty_success:
  assumes "op \<in> {createTokenClientCredentials, createTokenPasswordCredentials,
                 createTokenAuthorizationCode, refreshToken_op, invalidateToken}"
    and "url_protocol (uri self) = Some ''http:'' \<or> url_protocol (uri self) = Some ''https:''"
    and "resp_statusCode resp < 300"
    and "JSON_parse (concat (concat chunks)) = None"
  shows "calls (op self options cb (Response resp (map Readable chunks @ [End]))) = [(None, None)]"
proof -
  from post_operation_calls [OF assms(1,2)] obtain g where
    "calls (op self options cb (Response resp (map Readable chunks @ [End]))) =
       fst (requestComplete_end resp (options\<lparr>grantType := g\<rparr>) cb (concat (concat chunks)))"
    by blast
  with assms(3,4) show ?thesis
    by (simp add: requestComplete_end_def requestComplete_ret_def invoke_def)
qed

theorem post_not_json_is_empty_success_witness:
  "JSON_parse (concat (concat [[''not '', ''json'']])) = None
   \<and> calls (invalidateToken \<lparr>uri = ''https://backend.example/oauth'', key = ''K''\<rparr>
              (no_options\<lparr>accessToken := Some ''at''\<rparr>) (\<lambda>_. False)
              (Response \<lparr>resp_statusCode = 200, resp_headers = Map.empty\<rparr>
                 (map Readable [[''not '', ''json'']] @ [End])))
       = [(None, None)]"
proof -
  have m: "invalidateToken \<in> {createTokenClientCredentials, createTokenPasswordCredentials,
             createTokenAuthorizationCode, refreshToken_op, invalidateToken}"
    by simp
  have p: "url_protocol (uri \<lparr>uri = ''https://backend.example/oauth'', key = ''K''\<rparr>) = Some ''http:''
         \<or> url_protocol (uri \<lparr>uri = ''https://backend.example/oauth'', key = ''K''\<rparr>) = Some ''https:''"
    by code_simp
  have s: "resp_statusCode \<lparr>resp_statusCode = 200, resp_headers = Map.empty\<rparr> < 300"
    by simp
  have j: "JSON_parse (concat (concat [[''not '', ''json'']])) = None"
    by code_simp
  show ?thesis
    using j post_not_json_is_empty_success [OF m p s j,
        of "no_options\<lparr>accessToken := Some ''at''\<rparr>" "\<lambda>_. False"]
    by simp
qed

text \<open>
  C4. For each of the five operations that POST (the base URI being an http or https URL),
  when the response has been read to its end and its status is 300 or more, the callback is
  called once, with an error whose \<^verbatim>\<open>statusCode\<close> is the status and whose \<^verbatim>\<open>message\<close> is
  the body read, and with no result.
\<close>

theorem post_status_300_is_error:
  assumes "op \<in> {createTokenClientCredentials, createTokenPasswordCredentials,
                 createTokenAuthorizationCode, refreshToken_op, invalidateToken}"
    and "url_protocol (uri self) = Some ''http:'' \<or> url_protocol (uri self) = Some ''https:''"
    and "300 \<le> resp_statusCode resp"
  shows "calls (op self options cb (Response resp (map Readable chunks @ [End]))) =
           [(Some \<lparr>message = concat (concat chunks), statusCode = Some (resp_statusCode resp)\<rparr>,
             None)]"
proof -
  from post_operation_calls [OF assms(1,2)] obtain g where
    "calls (op self options cb (Response resp (map Readable chunks @ [End]))) =
       fst (requestComplete_end resp (options\<lparr>grantType := g\<rparr>) cb (concat (concat chunks)))"
    by blast
  with assms(3) show ?thesis
    by (simp add: requestComplete_end_def invoke_def)
qed

theorem post_status_300_is_error_witness:
  \<open>calls (createTokenPasswordCredentials \<lparr>uri = ''https://backend.example/oauth'', key = ''K''\<rparr>
            (no_options\<lparr>clientId := Some ''id'', clientSecret := Some ''secret''\<rparr>) (\<lambda>_. False)
            (Response \<lparr>resp_statusCode = 400, resp_headers = Map.empty\<rparr>
               (map Readable [[''"bad_''], [''request"'']] @ [End])))
     = [(Some \<lparr>message = ''"bad_request"'', statusCode = Some 400\<rparr>, None)]\<close>
proof -
  have m: "createTokenPasswordCredentials \<in> {createTokenClientCredentials,
             createTokenPasswordCredentials, createTokenAuthorizationCode, refreshToken_op,
             invalidateToken}"
    by simp
  have p: "url_protocol (uri \<lparr>uri = ''https://backend.example/oauth'', key = ''K''\<rparr>) = Some ''http:''
         \<or> url_protocol (uri \<lparr>uri = ''https://backend.example/oauth'', key = ''K''\<rparr>) = Some ''https:''"
    by code_simp
  have s: "300 \<le> resp_statusCode \<lparr>resp_statusCode = 400, resp_headers = Map.empty\<rparr>"
    by simp
  show ?thesis
    using post_status_300_is_error [OF m p s,
        of "no_options\<lparr>clientId := Some ''id'', clientSecret := Some ''secret''\<rparr>" "\<lambda>_. False"
        \<open>[[''"bad_''], [''request"'']]\<close>]
    by simp
qed

subsection \<open>The token result\<close>

lemma requestComplete_ret_token_type:
  "requestComplete_ret d options = Inr ret \<Longrightarrow> token_type ret = grantType options"
  by (auto simp: requestComplete_ret_def bind_exn_def split: option.splits sum.splits)

lemma requestComplete_end_token_type:
  "(e, Some ret) \<in> set (fst (requestComplete_end resp options cb d)) \<Longrightarrow>
     token_type ret = grantType options"
  by (auto simp: requestComplete_end_def invoke_def or_catch_def
      split: if_splits sum.splits dest: requestComplete_ret_token_type)

lemma and_then_calls: "set (fst (and_then a b)) \<subseteq> set (fst a) \<union> set (fst b)"
  by (auto simp: and_then_def)

lemma requestComplete_events_token_type:
  "(e, Some ret) \<in> set (fst (requestComplete_events resp options cb d evs)) \<Longrightarrow>
     token_type ret = grantType options"
proof (induction evs arbitrary: d)
  case Nil
  then show ?case by simp
next
  case (Cons ev evs)
  show ?case
  proof (cases ev)
    case (Readable chunks)
    with Cons show ?thesis by simp
  next
    case End
    with Cons.prems
    have "(e, Some ret) \<in> set (fst (requestComplete_end resp options cb d))
        \<or> (e, Some ret) \<in> set (fst (requestComplete_events resp options cb d evs))"
      using and_then_calls by fastforce
    then show ?thesis
      using Cons.IH requestComplete_end_token_type by blast
  next
    case (ErrorEvent err)
    with Cons.prems
    have "(e, Some ret) \<in> set (fst (invoke cb (Some err, None)))
        \<or> (e, Some ret) \<in> set (fst (requestComplete_events resp options cb d evs))"
      using and_then_calls by fastforce
    then show ?thesis
      using Cons.IH by (auto simp: invoke_def)
  qed
qed

lemma makeRequest_token_type:
  "(e, Some ret) \<in> set (calls (makeRequest self verb path data options cb network)) \<Longrightarrow>
     token_type ret = grantType options"
  unfolding makeRequest_def Let_def
  by (auto simp: invoke_def requestComplete_def split: if_splits net.splits
      dest: requestComplete_events_token_type)

lemma requestComplete_end_result:
  assumes "resp_statusCode resp < 300" and "requestComplete_ret d options = Inr ret"
  shows "fst (requestComplete_end resp options cb d) =
           (None, Some ret) # (if cb (None, Some ret) then [(None, None)] else [])"
  using assms by (simp add: requestComplete_end_def invoke_def or_catch_def)

lemma client_credentials_body_parsed:
  \<open>JSON_parse ''{"access_token":"T","refresh_token":"R","scope":"S","expires_in":"3600"}'' =
     Some (JObj [(''access_token'', JStr ''T''), (''refresh_token'', JStr ''R''),
                 (''scope'', JStr ''S''), (''expires_in'', JStr ''3600'')])\<close>
  by code_simp

lemma parseInt_3600: "parseInt (JStr ''3600'') = Integer 3600"
  by code_simp

lemma client_credentials_body_ret:
  \<open>requestComplete_ret
      ''{"access_token":"T","refresh_token":"R","scope":"S","expires_in":"3600"}'' options =
     Inr \<lparr>access_token = JStr ''T'', refresh_token = JStr ''R'', token_type = grantType options,
          ret_scope = JStr ''S'', expires_in = Integer 3600\<rparr>\<close>
  unfolding requestComplete_ret_def client_credentials_body_parsed
  by (simp add: get_prop_def bind_exn_def parseInt_3600)

lemma createTokenClientCredentials_calls:
  assumes "url_protocol (uri self) = Some ''http:'' \<or> url_protocol (uri self) = Some ''https:''"
    and "resp_statusCode resp < 300"
    and "requestComplete_ret (concat (concat chunks))
           (options\<lparr>grantType := Some ''client_credentials''\<rparr>) = Inr ret"
  shows "calls (createTokenClientCredentials self options cb
                  (Response resp (map Readable chunks @ [End]))) =
           (None, Some ret) # (if cb (None, Some ret) then [(None, None)] else [])"
proof -
  have d: "''grant_type=client_credentials'' @ amp_field ''scope'' (scope options) \<noteq> []"
    by simp
  show ?thesis
    unfolding createTokenClientCredentials_unfold makeRequest_supported [OF assms(1) d] Let_def
    using requestComplete_end_result [OF assms(2,3)]
    by (simp add: requestComplete_def requestComplete_readable_end)
qed

text \<open>
  C2. For a client-credentials call (the base URI being an http or https URL) whose response
  has a status below 300 and the body
  \<^verbatim>\<open>{"access_token":"T","refresh_token":"R","scope":"S","expires_in":"3600"}\<close>, the first
  call of the callback has no error and the result with \<^verbatim>\<open>access_token\<close> \<^verbatim>\<open>"T"\<close>,
  \<^verbatim>\<open>refresh_token\<close> \<^verbatim>\<open>"R"\<close>, \<^verbatim>\<open>token_type\<close> \<^verbatim>\<open>"client_credentials"\<close>, \<^verbatim>\<open>scope\<close> \<^verbatim>\<open>"S"\<close>
  and \<^verbatim>\<open>expires_in\<close> the number 3600, parsed from the string. These are the fields the
  specification names accessToken, refreshToken, tokenType, scope and expiresIn. It is the only
  call when the callback returns normally. Moreover, whatever the network does, every result
  a client-credentials call hands to the callback has the token type
  \<^verbatim>\<open>client_credentials\<close>: it is the grant type recorded at request time, never a field of the
  response.
\<close>

theorem client_credentials_result:
  assumes "url_protocol (uri self) = Some ''http:'' \<or> url_protocol (uri self) = Some ''https:''"
    and "resp_statusCode resp < 300"
    and \<open>concat (concat chunks) =
           ''{"access_token":"T","refresh_token":"R","scope":"S","expires_in":"3600"}''\<close>
  shows "calls (createTokenClientCredentials self options cb
                  (Response resp (map Readable chunks @ [End]))) =
           (None, Some \<lparr>access_token = JStr ''T'', refresh_token = JStr ''R'',
                         token_type = Some ''client_credentials'', ret_scope = JStr ''S'',
                         expires_in = Integer 3600\<rparr>)
           # (if cb (None, Some \<lparr>access_token = JStr ''T'', refresh_token = JStr ''R'',
                         token_type = Some ''client_credentials'', ret_scope = JStr ''S'',
                         expires_in = Integer 3600\<rparr>) then [(None, None)] else [])
         \<and> ((e, Some ret) \<in> set (calls (createTokenClientCredentials self options cb network))
              \<longrightarrow> token_type ret = Some ''client_credentials'')"
proof
  show "calls (createTokenClientCredentials self options cb
                  (Response resp (map Readable chunks @ [End]))) =
           (None, Some \<lparr>access_token = JStr ''T'', refresh_token = JStr ''R'',
                         token_type = Some ''client_credentials'', ret_scope = JStr ''S'',
                         expires_in = Integer 3600\<rparr>)
           # (if cb (None, Some \<lparr>access_token = JStr ''T'', refresh_token = JStr ''R'',
                         token_type = Some ''client_credentials'', ret_scope = JStr ''S'',
                         expires_in = Integer 3600\<rparr>) then [(None, None)] else [])"
    by (rule createTokenClientCredentials_calls [OF assms(1,2)])
      (simp add: assms(3) client_credentials_body_ret)
  show "(e, Some ret) \<in> set (calls (createTokenClientCredentials self options cb network))
          \<longrightarrow> token_type ret = Some ''client_credentials''"
    unfolding createTokenClientCredentials_unfold
    by (auto dest: makeRequest_token_type)
qed

theorem client_credentials_result_witness:
  \<open>calls (createTokenClientCredentials \<lparr>uri = ''https://backend.example/oauth'', key = ''K''\<rparr>
            (no_options\<lparr>clientId := Some ''id'', clientSecret := Some ''secret''\<rparr>)
            (\<lambda>_. False)
            (Response \<lparr>resp_statusCode = 200, resp_headers = Map.empty\<rparr>
               (map Readable
                  [[''{"access_token":"T","refresh_token":"R","scope":"S","expires_in":"3600"}'']]
                @ [End])))
     = [(None, Some \<lparr>access_token = JStr ''T'', refresh_token = JStr ''R'',
                       token_type = Some ''client_credentials'', ret_scope = JStr ''S'',
                       expires_in = Integer 3600\<rparr>)]
   \<and> (None, Some \<lparr>access_token = JStr ''T'', refresh_token = JUndefined,
                     token_type = Some ''client_credentials'', ret_scope = JUndefined,
                     expires_in = NaN\<rparr>)
       \<in> set (calls (createTokenClientCredentials
                        \<lparr>uri = ''https://backend.example/oauth'', key = ''K''\<rparr>
                        (no_options\<lparr>clientId := Some ''id'', clientSecret := Some ''secret''\<rparr>)
                        (\<lambda>_. False)
                        (Response \<lparr>resp_statusCode = 200, resp_headers = Map.empty\<rparr>
                           [Readable [''{"access_token":"T","token_type":"bearer"}''], End])))\<close>
proof -
  have p: "url_protocol (uri \<lparr>uri = ''https://backend.example/oauth'', key = ''K''\<rparr>) = Some ''http:''
         \<or> url_protocol (uri \<lparr>uri = ''https://backend.example/oauth'', key = ''K''\<rparr>) = Some ''https:''"
    by code_simp
  have s: "resp_statusCode \<lparr>resp_statusCode = 200, resp_headers = Map.empty\<rparr> < 300"
    by simp
  have b: \<open>concat (concat
      [[''{"access_token":"T","refresh_token":"R","scope":"S","expires_in":"3600"}'']]) =
      ''{"access_token":"T","refresh_token":"R","scope":"S","expires_in":"3600"}''\<close>
    by simp
  have c: \<open>calls (createTokenClientCredentials
                    \<lparr>uri = ''https://backend.example/oauth'', key = ''K''\<rparr>
                    (no_options\<lparr>clientId := Some ''id'', clientSecret := Some ''secret''\<rparr>)
                    (\<lambda>_. False)
                    (Response \<lparr>resp_statusCode = 200, resp_headers = Map.empty\<rparr>
                       [Readable [''{"access_token":"T","token_type":"bearer"}''], End]))
     = [(None, Some \<lparr>access_token = JStr ''T'', refresh_token = JUndefined,
                       token_type = Some ''client_credentials'', ret_scope = JUndefined,
                       expires_in = NaN\<rparr>)]\<close>
    by code_simp
  show ?thesis
    using client_credentials_result [OF p s b,
        where cb = "\<lambda>_. False"
          and options = "no_options\<lparr>clientId := Some ''id'', clientSecret := Some ''secret''\<rparr>"]
    unfolding c by simp
qed

subsection \<open>How often the callback is called\<close>

text \<open>
  C8. The callback is to be called exactly once per call, for every outcome and also when the
  callback itself throws. This does not hold of \<^verbatim>\<open>requestComplete\<close>: the call
  \<^verbatim>\<open>cb(undefined, ret)\<close> stands inside the \<^verbatim>\<open>try\<close> block whose \<^verbatim>\<open>catch\<close> clause calls
  \<^verbatim>\<open>cb()\<close>. For a client-credentials call answered with status 200 and a JSON body, a
  callback that throws when it is handed a result is called twice: first with the result,
  then with no arguments.
\<close>

theorem callback_called_twice_when_it_throws:
  \<open>calls (createTokenClientCredentials \<lparr>uri = ''https://backend.example/oauth'', key = ''K''\<rparr>
            (no_options\<lparr>clientId := Some ''id'', clientSecret := Some ''secret''\<rparr>)
            (\<lambda>args. snd args \<noteq> None)
            (Response \<lparr>resp_statusCode = 200, resp_headers = Map.empty\<rparr>
               [Readable [''{"access_token":"T","refresh_token":"R","scope":"S","expires_in":"3600"}''],
                End]))
     = [(None, Some \<lparr>access_token = JStr ''T'', refresh_token = JStr ''R'',
                       token_type = Some ''client_credentials'', ret_scope = JStr ''S'',
                       expires_in = Integer 3600\<rparr>),
        (None, None)]\<close>
proof -
  have p: "url_protocol (uri \<lparr>uri = ''https://backend.example/oauth'', key = ''K''\<rparr>) = Some ''http:''
         \<or> url_protocol (uri \<lparr>uri = ''https://backend.example/oauth'', key = ''K''\<rparr>) = Some ''https:''"
    by code_simp
  have s: "resp_statusCode \<lparr>resp_statusCode = 200, resp_headers = Map.empty\<rparr> < 300"
    by simp
  have r: \<open>requestComplete_ret
      (concat (concat [[''{"access_token":"T","refresh_token":"R","scope":"S","expires_in":"3600"}'']]))
      (no_options\<lparr>clientId := Some ''id'', clientSecret := Some ''secret'',
                  grantType := Some ''client_credentials''\<rparr>) =
     Inr \<lparr>access_token = JStr ''T'', refresh_token = JStr ''R'',
          token_type = Some ''client_credentials'',
          ret_scope = JStr ''S'', expires_in = Integer 3600\<rparr>\<close>
    using client_credentials_body_ret
      [of "no_options\<lparr>clientId := Some ''id'', clientSecret := Some ''secret'',
                  grantType := Some ''client_credentials''\<rparr>"]
    by (simp add: no_options_def)
  show ?thesis
    using createTokenClientCredentials_calls [OF p s r, of "\<lambda>args. snd args \<noteq> None"]
    by simp
qed

subsection \<open>The requests sent\<close>

lemma makeRequest_sent:
  assumes "url_protocol (uri self) = Some ''http:'' \<or> url_protocol (uri self) = Some ''https:''"
    and "data \<noteq> []"
  shows "\<exists>r. sent (makeRequest self verb path data options cb network) = [r]
           \<and> http_method r = verb \<and> href r = uri self @ path \<and> body r = Some data
           \<and> headers r =
                [(''Authorization'',
                  HStr (base64 (str_of (clientId options) @ '':'' @ str_of (clientSecret options)))),
                 (''x-DNA-Api-Key'', HStr (key self))]
                @ lifetime_header options
                @ [(''Content-Type'', HStr ''application/x-www-form-urlencoded'')]"
  unfolding makeRequest_supported [OF assms] Let_def by simp

lemma first_field_end:
  "list_all (\<lambda>c. c \<noteq> CHR ''&'') a \<Longrightarrow> takeWhile (\<lambda>c. c \<noteq> CHR ''&'') a = a"
  by (induction a) auto

lemma first_field_amp1:
  "list_all (\<lambda>c. c \<noteq> CHR ''&'') a \<Longrightarrow>
     takeWhile (\<lambda>c. c \<noteq> CHR ''&'') (a @ amp_field k v) = a"
  by (auto simp: amp_field_def first_field first_field_end)

lemma makeRequest_sent_first:
  assumes "url_protocol (uri self) = Some ''http:'' \<or> url_protocol (uri self) = Some ''https:''"
    and "f \<noteq> []"
    and "takeWhile (\<lambda>c. c \<noteq> CHR ''&'') data = f"
  shows "\<exists>r b. sent (makeRequest self verb path data options cb network) = [r]
           \<and> http_method r = verb \<and> href r = uri self @ path \<and> body r = Some b
           \<and> takeWhile (\<lambda>c. c \<noteq> CHR ''&'') b = f"
proof -
  from assms(2,3) have d: "data \<noteq> []" by auto
  from makeRequest_sent [OF assms(1) d] obtain r where
    "sent (makeRequest self verb path data options cb network) = [r]"
    "http_method r = verb" "href r = uri self @ path" "body r = Some data"
    by blast
  with assms(3) show ?thesis by blast
qed

text \<open>
  C5. For all seven operations and every parameter object (the base URI being an http or
  https URL), exactly one request is sent; its verb is the one of the table, and the URL
  requested is the base URI followed by the sub-path of the table (and, for the two
  operations that GET, by \<^verbatim>\<open>?\<close> and the query string). For the four operations that issue
  a token, the first field of the body, the text before the first \<^verbatim>\<open>&\<close>, is
  \<^verbatim>\<open>grant_type=\<close> and the fixed grant type of the operation.
\<close>

theorem operations_verb_path_grant_type:
  assumes "url_protocol (uri self) = Some ''http:'' \<or> url_protocol (uri self) = Some ''https:''"
  shows "(\<exists>r b. sent (createTokenClientCredentials self options cb network) = [r]
            \<and> http_method r = ''POST'' \<and> href r = uri self @ ''/tokentypes/client/tokens''
            \<and> body r = Some b
            \<and> takeWhile (\<lambda>c. c \<noteq> CHR ''&'') b = ''grant_type=client_credentials'')
       \<and> (\<exists>r b. sent (createTokenPasswordCredentials self options cb network) = [r]
            \<and> http_method r = ''POST'' \<and> href r = uri self @ ''/tokentypes/password/tokens''
            \<and> body r = Some b
            \<and> takeWhile (\<lambda>c. c \<noteq> CHR ''&'') b = ''grant_type=password'')
       \<and> (\<exists>r b. sent (createTokenAuthorizationCode self options cb network) = [r]
            \<and> http_method r = ''POST'' \<and> href r = uri self @ ''/tokentypes/authcode/tokens''
            \<and> body r = Some b
            \<and> takeWhile (\<lambda>c. c \<noteq> CHR ''&'') b = ''grant_type=authorization_code'')
       \<and> (\<exists>r b. sent (refreshToken_op self options cb network) = [r]
            \<and> http_method r = ''POST'' \<and> href r = uri self @ ''/tokentypes/all/refresh''
            \<and> body r = Some b
            \<and> takeWhile (\<lambda>c. c \<noteq> CHR ''&'') b = ''grant_type=refresh_token'')
       \<and> (\<exists>r. sent (invalidateToken self options cb network) = [r]
            \<and> http_method r = ''POST'' \<and> href r = uri self @ ''/tokentypes/all/invalidate'')
       \<and> (\<exists>r q. sent (generateAuthorizationCode self options cb' network) = [r]
            \<and> http_method r = ''GET''
            \<and> href r = uri self @ ''/tokentypes/authcode/authcodes'' @ ''?'' @ q)
       \<and> (\<exists>r q. sent (createTokenImplicitGrant self options cb' network) = [r]
            \<and> http_method r = ''GET''
            \<and> href r = uri self @ ''/tokentypes/implicit/tokens'' @ ''?'' @ q)"
proof (intro conjI)
  let ?first = "takeWhile (\<lambda>c. c \<noteq> CHR ''&'')"
  show "\<exists>r b. sent (createTokenClientCredentials self options cb network) = [r]
            \<and> http_method r = ''POST'' \<and> href r = uri self @ ''/tokentypes/client/tokens''
            \<and> body r = Some b \<and> ?first b = ''grant_type=client_credentials''"
    unfolding createTokenClientCredentials_unfold
    by (rule makeRequest_sent_first [OF assms], simp, rule first_field_amp1) simp
  have "?first (''grant_type=password'' @ CHR ''&'' # (''username=''
         @ escape (stringifyPrimitive (username options))
         @ ''&password='' @ escape (stringifyPrimitive (password options))
         @ amp_field ''scope'' (scope options)))
      = ''grant_type=password''"
    by (rule first_field) simp
  then show "\<exists>r b. sent (createTokenPasswordCredentials self options cb network) = [r]
            \<and> http_method r = ''POST'' \<and> href r = uri self @ ''/tokentypes/password/tokens''
            \<and> body r = Some b \<and> ?first b = ''grant_type=password''"
    unfolding createTokenPasswordCredentials_unfold
    by (intro makeRequest_sent_first [OF assms]) simp_all
  have "?first (''grant_type=authorization_code'' @ CHR ''&'' # (''code=''
         @ escape (stringifyPrimitive (code options))
         @ amp_field ''redirect_uri'' (redirectUri options)
         @ amp_field ''client_id'' (clientId options)))
      = ''grant_type=authorization_code''"
    by (rule first_field) simp
  then show "\<exists>r b. sent (createTokenAuthorizationCode self options cb network) = [r]
            \<and> http_method r = ''POST'' \<and> href r = uri self @ ''/tokentypes/authcode/tokens''
            \<and> body r = Some b \<and> ?first b = ''grant_type=authorization_code''"
    unfolding createTokenAuthorizationCode_unfold
    by (intro makeRequest_sent_first [OF assms]) simp_all
  have "?first (''grant_type=refresh_token'' @ CHR ''&'' # (''refresh_token=''
         @ escape (stringifyPrimitive (refreshToken options))
         @ amp_field ''scope'' (scope options)))
      = ''grant_type=refresh_token''"
    by (rule first_field) simp
  then show "\<exists>r b. sent (refreshToken_op self options cb network) = [r]
            \<and> http_method r = ''POST'' \<and> href r = uri self @ ''/tokentypes/all/refresh''
            \<and> body r = Some b \<and> ?first b = ''grant_type=refresh_token''"
    unfolding refreshToken_unfold
    by (intro makeRequest_sent_first [OF assms]) simp_all
  have "\<exists>r. sent (makeRequest self ''POST'' ''/tokentypes/all/invalidate''
       (if truthy (refreshToken options)
        then ''token='' @ escape (stringifyPrimitive (refreshToken options))
               @ ''&token_type_hint=refresh_token''
        else ''token='' @ escape (stringifyPrimitive (accessToken options))
               @ ''&token_type_hint=access_token'')
       options cb network) = [r]
            \<and> http_method r = ''POST'' \<and> href r = uri self @ ''/tokentypes/all/invalidate''"
    using makeRequest_sent [OF assms, of "if truthy (refreshToken options)
        then ''token='' @ escape (stringifyPrimitive (refreshToken options))
               @ ''&token_type_hint=refresh_token''
        else ''token='' @ escape (stringifyPrimitive (accessToken options))
               @ ''&token_type_hint=access_token''" "''POST''" "''/tokentypes/all/invalidate''"
        options cb network]
    by auto
  then show "\<exists>r. sent (invalidateToken self options cb network) = [r]
            \<and> http_method r = ''POST'' \<and> href r = uri self @ ''/tokentypes/all/invalidate''"
    unfolding invalidateToken_unfold .
  show "\<exists>r q. sent (generateAuthorizationCode self options cb' network) = [r]
            \<and> http_method r = ''GET''
            \<and> href r = uri self @ ''/tokentypes/authcode/authcodes'' @ ''?'' @ q"
    unfolding generateAuthorizationCode_sent [OF assms] by simp
  show "\<exists>r q. sent (createTokenImplicitGrant self options cb' network) = [r]
            \<and> http_method r = ''GET''
            \<and> href r = uri self @ ''/tokentypes/implicit/tokens'' @ ''?'' @ q"
    unfolding createTokenImplicitGrant_sent [OF assms] by simp
qed

theorem operations_verb_path_grant_type_witness:
  "(\<exists>r b. sent (createTokenClientCredentials \<lparr>uri = ''https://backend.example/oauth'', key = ''K''\<rparr>
               (no_options\<lparr>clientId := Some ''id'', clientSecret := Some ''secret'',
                           scope := Some ''read write''\<rparr>)
               (\<lambda>_. False) (RequestError (Error ''ECONNREFUSED''))) = [r]
          \<and> http_method r = ''POST''
          \<and> href r = ''https://backend.example/oauth/tokentypes/client/tokens''
          \<and> body r = Some b
          \<and> takeWhile (\<lambda>c. c \<noteq> CHR ''&'') b = ''grant_type=client_credentials'')
   \<and> (\<exists>r q. sent (generateAuthorizationCode \<lparr>uri = ''https://backend.example/oauth'', key = ''K''\<rparr>
               (no_options\<lparr>clientId := Some ''id'', clientSecret := Some ''secret'',
                           scope := Some ''read write''\<rparr>)
               (\<lambda>_. False) (RequestError (Error ''ECONNREFUSED''))) = [r]
          \<and> http_method r = ''GET''
          \<and> href r = ''https://backend.example/oauth/tokentypes/authcode/authcodes?'' @ q)"
proof -
  have p: "url_protocol (uri \<lparr>uri = ''https://backend.example/oauth'', key = ''K''\<rparr>) = Some ''http:''
         \<or> url_protocol (uri \<lparr>uri = ''https://backend.example/oauth'', key = ''K''\<rparr>) = Some ''https:''"
    by code_simp
  show ?thesis
    using operations_verb_path_grant_type [OF p,
        of "no_options\<lparr>clientId := Some ''id'', clientSecret := Some ''secret'',
                       scope := Some ''read write''\<rparr>"
           "\<lambda>_. False" "RequestError (Error ''ECONNREFUSED'')" "\<lambda>_. False"]
    by simp
qed

subsection \<open>The headers sent\<close>

text \<open>The base64 alphabet has no space, so no encoding starts with the scheme name
  \<^verbatim>\<open>Basic\<close> and a space.\<close>

lemma b64_not_space: "b64 n \<noteq> CHR '' ''"
proof -
  have "b64 n \<in> set ''ABCDEFGHIJKLMNOPQRSTUVWXYZabcdefghijklmnopqrstuvwxyz0123456789+/''"
    unfolding b64_def by (rule nth_mem) simp
  then show ?thesis by auto
qed

lemma base64_bytes_no_space: "CHR '' '' \<notin> set (base64_bytes bs)"
  by (induction bs rule: base64_bytes.induct) (simp_all add: b64_not_space [symmetric])

lemma base64_no_Basic_prefix: "take 6 (base64 s) \<noteq> ''Basic ''"
proof
  assume "take 6 (base64 s) = ''Basic ''"
  then have "CHR '' '' \<in> set (take 6 (base64 s))" by simp
  then have "CHR '' '' \<in> set (base64 s)" by (rule in_set_takeD)
  then show False by (simp add: base64_def base64_bytes_no_space)
qed

lemma makeRequest_sent_headers:
  assumes "url_protocol (uri self) = Some ''http:'' \<or> url_protocol (uri self) = Some ''https:''"
    and "data \<noteq> []"
    and "clientId options = Some cid" and "clientSecret options = Some secret"
  shows "\<exists>r. sent (makeRequest self verb path data options cb network) = [r]
           \<and> map_of (headers r) ''Authorization'' = Some (HStr (base64 (cid @ '':'' @ secret)))
           \<and> take 6 (base64 (cid @ '':'' @ secret)) \<noteq> ''Basic ''
           \<and> map_of (headers r) ''x-DNA-Api-Key'' = Some (HStr (key self))"
  unfolding makeRequest_supported [OF assms(1,2)] Let_def
  by (simp add: assms(3,4) str_of_def base64_no_Basic_prefix)

text \<open>
  C6. For each of the five operations that POST (the base URI being an http or https URL, and
  \<^verbatim>\<open>clientId\<close> and \<^verbatim>\<open>clientSecret\<close> given), the request sent has the header
  \<^verbatim>\<open>Authorization\<close> whose value is the base64 encoding of \<^verbatim>\<open>clientId:clientSecret\<close>, not
  preceded by \<^verbatim>\<open>Basic\<close>, and the header \<^verbatim>\<open>x-DNA-Api-Key\<close> whose value is the adapter's key.
  For each of the two operations that GET, the headers of the request sent are the header
  \<^verbatim>\<open>x-DNA-Api-Key\<close> with the adapter's key and nothing else. (A parameter that is
  \<^verbatim>\<open>undefined\<close> enters the encoded text as the word \<^verbatim>\<open>undefined\<close>; the theorem is about
  calls that give both.)
\<close>

theorem authorization_and_api_key_headers:
  assumes "url_protocol (uri self) = Some ''http:'' \<or> url_protocol (uri self) = Some ''https:''"
  shows "(op \<in> {createTokenClientCredentials, createTokenPasswordCredentials,
                 createTokenAuthorizationCode, refreshToken_op, invalidateToken}
          \<and> clientId options = Some cid \<and> clientSecret options = Some secret \<longrightarrow>
            (\<exists>r. sent (op self options cb network) = [r]
               \<and> map_of (headers r) ''Authorization'' = Some (HStr (base64 (cid @ '':'' @ secret)))
               \<and> take 6 (base64 (cid @ '':'' @ secret)) \<noteq> ''Basic ''
               \<and> map_of (headers r) ''x-DNA-Api-Key'' = Some (HStr (key self))))
       \<and> (gop \<in> {generateAuthorizationCode, createTokenImplicitGrant} \<longrightarrow>
            (\<exists>r. sent (gop self options cb' network) = [r]
               \<and> headers r = [(''x-DNA-Api-Key'', HStr (key self))]))"
proof (intro conjI impI)
  assume a: "op \<in> {createTokenClientCredentials, createTokenPasswordCredentials,
                 createTokenAuthorizationCode, refreshToken_op, invalidateToken}
          \<and> clientId options = Some cid \<and> clientSecret options = Some secret"
  then have m: "op \<in> {createTokenClientCredentials, createTokenPasswordCredentials,
                 createTokenAuthorizationCode, refreshToken_op, invalidateToken}"
    and c: "clientId (options\<lparr>grantType := g\<rparr>) = Some cid"
      "clientSecret (options\<lparr>grantType := g\<rparr>) = Some secret" for g
    by simp_all
  from post_operation_form [OF m, of self options cb network]
  obtain path data g where d: "data \<noteq> []"
    and f: "op self options cb network =
      makeRequest self ''POST'' path data (options\<lparr>grantType := g\<rparr>) cb network"
    by (elim exE conjE)
  show "\<exists>r. sent (op self options cb network) = [r]
               \<and> map_of (headers r) ''Authorization'' = Some (HStr (base64 (cid @ '':'' @ secret)))
               \<and> take 6 (base64 (cid @ '':'' @ secret)) \<noteq> ''Basic ''
               \<and> map_of (headers r) ''x-DNA-Api-Key'' = Some (HStr (key self))"
    unfolding f by (rule makeRequest_sent_headers [OF assms d c])
next
  assume "gop \<in> {generateAuthorizationCode, createTokenImplicitGrant}"
  then consider "gop = generateAuthorizationCode" | "gop = createTokenImplicitGrant" by blast
  then show "\<exists>r. sent (gop self options cb' network) = [r]
               \<and> headers r = [(''x-DNA-Api-Key'', HStr (key self))]"
  proof cases
    case 1
    show ?thesis unfolding 1 generateAuthorizationCode_sent [OF assms] by simp
  next
    case 2
    show ?thesis unfolding 2 createTokenImplicitGrant_sent [OF assms] by simp
  qed
qed

theorem authorization_and_api_key_headers_witness:
  "(\<exists>r. sent (refreshToken_op \<lparr>uri = ''https://backend.example/oauth'', key = ''K''\<rparr>
             (no_options\<lparr>clientId := Some ''id'', clientSecret := Some ''secret''\<rparr>)
             (\<lambda>_. False) (RequestError (Error ''ECONNREFUSED''))) = [r]
        \<and> map_of (headers r) ''Authorization'' = Some (HStr ''aWQ6c2VjcmV0'')
        \<and> map_of (headers r) ''x-DNA-Api-Key'' = Some (HStr ''K''))
   \<and> (\<exists>r. sent (createTokenImplicitGrant \<lparr>uri = ''https://backend.example/oauth'', key = ''K''\<rparr>
             (no_options\<lparr>clientId := Some ''id'', clientSecret := Some ''secret''\<rparr>)
             (\<lambda>_. False) (RequestError (Error ''ECONNREFUSED''))) = [r]
        \<and> headers r = [(''x-DNA-Api-Key'', HStr ''K'')])"
proof -
  have p: "url_protocol (uri \<lparr>uri = ''https://backend.example/oauth'', key = ''K''\<rparr>) = Some ''http:''
         \<or> url_protocol (uri \<lparr>uri = ''https://backend.example/oauth'', key = ''K''\<rparr>) = Some ''https:''"
    by code_simp
  have b: "base64 (''id'' @ '':'' @ ''secret'') = ''aWQ6c2VjcmV0''"
    by code_simp
  show ?thesis
    using authorization_and_api_key_headers [OF p,
        where op = refreshToken_op and gop = createTokenImplicitGrant
          and options = "no_options\<lparr>clientId := Some ''id'', clientSecret := Some ''secret''\<rparr>"
          and cid = "''id''" and secret = "''secret''"
          and cb = "\<lambda>_. False" and cb' = "\<lambda>_. False"
          and network = "RequestError (Error ''ECONNREFUSED'')"]
    unfolding b by simp
qed

subsection \<open>Invalidating a token\<close>

lemma requestComplete_ret_accessToken:
  "requestComplete_ret d (options\<lparr>accessToken := a\<rparr>) = requestComplete_ret d options"
  by (cases "JSON_parse d") (simp_all add: requestComplete_ret_def)

lemma requestComplete_end_accessToken:
  "requestComplete_end resp (options\<lparr>accessToken := a\<rparr>) cb d =
     requestComplete_end resp options cb d"
  by (simp add: requestComplete_end_def requestComplete_ret_accessToken)

lemma requestComplete_events_accessToken:
  "requestComplete_events resp (options\<lparr>accessToken := a\<rparr>) cb d evs =
     requestComplete_events resp options cb d evs"
proof (induction evs arbitrary: d)
  case Nil
  show ?case by simp
next
  case (Cons ev evs)
  then show ?case
    by (cases ev) (simp_all add: requestComplete_end_accessToken)
qed

lemma makeRequest_accessToken:
  "makeRequest self verb path data (options\<lparr>accessToken := a\<rparr>) cb network =
     makeRequest self verb path data options cb network"
  by (cases network)
    (simp_all add: makeRequest_def Let_def requestComplete_def requestComplete_events_accessToken)

text \<open>
  C7. For \<^verbatim>\<open>invalidateToken\<close> (the base URI being an http or https URL): when
  \<^verbatim>\<open>refreshToken\<close> is given (a non-empty string), the body sent is
  \<^verbatim>\<open>token=\<close>, the escaped refresh token and \<^verbatim>\<open>&token_type_hint=refresh_token\<close>, and the whole
  call is the same whatever \<^verbatim>\<open>accessToken\<close> is: it is ignored. When \<^verbatim>\<open>refreshToken\<close> is
  absent (or the empty string) and \<^verbatim>\<open>accessToken\<close> is given, the body is \<^verbatim>\<open>token=\<close>, the
  escaped access token and \<^verbatim>\<open>&token_type_hint=access_token\<close>.
\<close>

theorem invalidateToken_precedence:
  assumes "url_protocol (uri self) = Some ''http:'' \<or> url_protocol (uri self) = Some ''https:''"
  shows "(refreshToken options = Some rt \<and> rt \<noteq> [] \<longrightarrow>
            (\<exists>r. sent (invalidateToken self options cb network) = [r]
               \<and> body r = Some (''token='' @ escape rt @ ''&token_type_hint=refresh_token''))
            \<and> invalidateToken self (options\<lparr>accessToken := a\<rparr>) cb network =
                invalidateToken self options cb network)
       \<and> (\<not> truthy (refreshToken options) \<and> accessToken options = Some at \<longrightarrow>
            (\<exists>r. sent (invalidateToken self options cb network) = [r]
               \<and> body r = Some (''token='' @ escape at @ ''&token_type_hint=access_token'')))"
proof (intro conjI impI)
  assume a: "refreshToken options = Some rt \<and> rt \<noteq> []"
  then have t: "truthy (refreshToken options)" by (simp add: truthy_def)
  have d: "''token='' @ escape rt @ ''&token_type_hint=refresh_token'' \<noteq> []" by simp
  from a t show "\<exists>r. sent (invalidateToken self options cb network) = [r]
               \<and> body r = Some (''token='' @ escape rt @ ''&token_type_hint=refresh_token'')"
    unfolding invalidateToken_unfold
    using makeRequest_sent [OF assms d, of "''POST''" "''/tokentypes/all/invalidate''" options cb network]
    by (auto simp: stringifyPrimitive_def)
  from t show "invalidateToken self (options\<lparr>accessToken := a\<rparr>) cb network =
                invalidateToken self options cb network"
    unfolding invalidateToken_unfold by (simp add: makeRequest_accessToken)
next
  assume a: "\<not> truthy (refreshToken options) \<and> accessToken options = Some at"
  have d: "''token='' @ escape at @ ''&token_type_hint=access_token'' \<noteq> []" by simp
  from a show "\<exists>r. sent (invalidateToken self options cb network) = [r]
               \<and> body r = Some (''token='' @ escape at @ ''&token_type_hint=access_token'')"
    unfolding invalidateToken_unfold
    using makeRequest_sent [OF assms d, of "''POST''" "''/tokentypes/all/invalidate''" options cb network]
    by (auto simp: stringifyPrimitive_def)
qed

theorem invalidateToken_precedence_witness:
  "(\<exists>r. sent (invalidateToken \<lparr>uri = ''https://backend.example/oauth'', key = ''K''\<rparr>
             (no_options\<lparr>refreshToken := Some ''rt'', accessToken := Some ''at''\<rparr>)
             (\<lambda>_. False) (RequestError (Error ''ECONNREFUSED''))) = [r]
        \<and> body r = Some ''token=rt&token_type_hint=refresh_token'')
   \<and> (\<exists>r. sent (invalidateToken \<lparr>uri = ''https://backend.example/oauth'', key = ''K''\<rparr>
             (no_options\<lparr>accessToken := Some ''at''\<rparr>)
             (\<lambda>_. False) (RequestError (Error ''ECONNREFUSED''))) = [r]
        \<and> body r = Some ''token=at&token_type_hint=access_token'')"
proof -
  have p: "url_protocol (uri \<lparr>uri = ''https://backend.example/oauth'', key = ''K''\<rparr>) = Some ''http:''
         \<or> url_protocol (uri \<lparr>uri = ''https://backend.example/oauth'', key = ''K''\<rparr>) = Some ''https:''"
    by code_simp
  have e: "escape ''rt'' = ''rt''" "escape ''at'' = ''at''"
    by code_simp+
  have t: "\<not> truthy (refreshToken (no_options\<lparr>accessToken := Some ''at''\<rparr>))"
    by (simp add: no_options_def truthy_def)
  show ?thesis
    using invalidateToken_precedence [OF p,
        where options = "no_options\<lparr>refreshToken := Some ''rt'', accessToken := Some ''at''\<rparr>"
          and rt = "''rt''" and cb = "\<lambda>_. False"
          and network = "RequestError (Error ''ECONNREFUSED'')"]
      invalidateToken_precedence [OF p,
        where options = "no_options\<lparr>accessToken := Some ''at''\<rparr>"
          and at = "''at''" and cb = "\<lambda>_. False"
          and network = "RequestError (Error ''ECONNREFUSED'')"]
      t
    unfolding e by simp
qed

end
